theory Spec2Isabelle
  imports Complex_Main "HOL-Library.AList"
begin

section \<open>Python strings and lists\<close>

text \<open>
  Texts are modelled as ASCII strings (Isabelle characters are bytes); Python floats are
  modelled as real numbers, Python ints as \<open>int\<close>. Exceptions are values of the type
  \<open>py_error\<close>.
\<close>

datatype py_error = ZeroDivisionError | IndexError | ValueError | TypeError

definition is_space :: "char \<Rightarrow> bool" where
  \<comment> \<open>the ASCII characters for which \<open>str.isspace\<close> holds, the separators of \<open>str.split()\<close>\<close>
  "is_space c = (c \<in> set [CHR '' '', CHR 0x09, CHR 0x0A, CHR 0x0B, CHR 0x0C, CHR 0x0D,
                            CHR 0x1C, CHR 0x1D, CHR 0x1E, CHR 0x1F])"

fun split_acc :: "string \<Rightarrow> string \<Rightarrow> string list" where
  "split_acc w [] = (if w = [] then [] else [w])"
| "split_acc w (c # cs) =
     (if is_space c then (if w = [] then split_acc [] cs else w # split_acc [] cs)
      else split_acc (w @ [c]) cs)"

definition py_split :: "string \<Rightarrow> string list" where
  \<comment> \<open>\<open>text.split()\<close>: the maximal runs of non-whitespace characters\<close>
  "py_split s = split_acc [] s"

fun join :: "string list \<Rightarrow> string" where
  \<comment> \<open>\<open>' '.join(ws)\<close>\<close>
  "join [] = []"
| "join [w] = w"
| "join (w # ws) = w @ CHR '' '' # join ws"

definition py_slice :: "'a list \<Rightarrow> int \<Rightarrow> int \<Rightarrow> 'a list" where
  \<comment> \<open>\<open>xs[i:j]\<close>: negative bounds count from the end, all bounds are clamped\<close>
  "py_slice xs i j =
     (let n = int (length xs);
          a = (if i < 0 then max 0 (i + n) else min i n);
          b = (if j < 0 then max 0 (j + n) else min j n)
      in take (nat (b - a)) (drop (nat a) xs))"

definition py_take :: "int \<Rightarrow> 'a list \<Rightarrow> 'a list" where
  \<comment> \<open>\<open>xs[:k]\<close>\<close>
  "py_take k xs = py_slice xs 0 k"

section \<open>chunk_text (api/v1/vectordb.py)\<close>

text \<open>
  The \<open>while\<close> loop of \<open>chunk_text\<close>. It has no bound of its own, so it is a partial
  function: \<open>None\<close> is the loop that never returns.
\<close>

partial_function (option) chunk_text_loop ::
  "string list \<Rightarrow> int \<Rightarrow> int \<Rightarrow> int \<Rightarrow> string list \<Rightarrow> string list option" where
  "chunk_text_loop words chunk_size overlap start chunks =
     (if start < int (length words) then
        (let end = min (start + chunk_size) (int (length words));
             chunk = join (py_slice words start end);
             chunks' = chunks @ [chunk];
             start' = end - overlap
         in if start' \<ge> int (length words) - overlap then Some chunks'
            else chunk_text_loop words chunk_size overlap start' chunks')
      else Some chunks)"

definition chunk_text :: "string \<Rightarrow> int \<Rightarrow> int \<Rightarrow> string list option" where
  "chunk_text text chunk_size overlap =
     (if text = [] then Some []
      else let words = py_split text
           in if int (length words) \<le> chunk_size then Some [text]
              else chunk_text_loop words chunk_size overlap 0 [])"

section \<open>Tokenizer and query expansion (SPLADESearch, api/v1/vectordb.py)\<close>

definition lower_char :: "char \<Rightarrow> char" where
  \<comment> \<open>an upper-case ASCII letter gets bit 5 set (code + 32); other characters are unchanged\<close>
  "lower_char c =
     (if 65 \<le> (of_char c :: nat) \<and> (of_char c :: nat) \<le> 90
      then (case c of Char b0 b1 b2 b3 b4 b5 b6 b7 \<Rightarrow> Char b0 b1 b2 b3 b4 True b6 b7)
      else c)"

definition py_lower :: "string \<Rightarrow> string" where
  \<comment> \<open>\<open>str.lower()\<close> on ASCII text\<close>
  "py_lower s = map lower_char s"

definition py_strip :: "string \<Rightarrow> string" where
  \<comment> \<open>\<open>str.strip()\<close>\<close>
  "py_strip s = rev (dropWhile is_space (rev (dropWhile is_space s)))"

fun split_on :: "char \<Rightarrow> string \<Rightarrow> string list" where
  \<comment> \<open>\<open>s.split(d)\<close> for a one-character separator: empty fields are kept\<close>
  "split_on d [] = [[]]"
| "split_on d (c # cs) =
     (if c = d then [] # split_on d cs
      else (case split_on d cs of [] \<Rightarrow> [[c]] | w # ws \<Rightarrow> (c # w) # ws))"

definition is_word_char :: "char \<Rightarrow> bool" where
  \<comment> \<open>the ASCII characters matched by \<open>\w\<close>\<close>
  "is_word_char c =
     (let n = (of_char c :: nat)
      in (48 \<le> n \<and> n \<le> 57) \<or> (65 \<le> n \<and> n \<le> 90) \<or> (97 \<le> n \<and> n \<le> 122) \<or> n = 95)"

definition tokenize :: "string \<Rightarrow> string list" where
  \<comment> \<open>\<open>SPLADESearch._tokenize\<close>: lowercase, replace \<open>[^\w\s\-]\<close> by a space, split, drop
      tokens of length at most 1\<close>
  "tokenize text =
     (let text1 = py_lower text;
          text2 = map (\<lambda>c. if is_word_char c \<or> is_space c \<or> c = CHR ''-'' then c else CHR '' '') text1;
          tokens = py_split text2
      in filter (\<lambda>t. length t > 1) tokens)"

text \<open>
  The outcome of the chat-completion request of \<open>_expand_query\<close>: status 200 with the
  content of the first choice, another status, or an exception anywhere inside the
  \<open>try\<close> block (network error, malformed body).
\<close>

datatype suggest_response = Suggestion string | Bad_status | Failed

text \<open>A point returned by the vector database: id, native score, payload text, other payload.\<close>

type_synonym metadata = "(string \<times> string) list"

record qdrant_point =
  p_id :: string
  p_score :: real
  p_text :: string
  p_payload :: metadata

text \<open>
  The collaborators of the store. \<open>api_key\<close> is the truth value of
  \<open>settings.OPENAI_API_KEY\<close>; \<open>embed\<close> is the outcome of the embeddings request
  (\<open>None\<close> for a status other than 200 or an exception); \<open>query_points\<close> is the vector
  database (\<open>None\<close> when the call raises); \<open>cosine\<close> is numpy's
  \<open>dot(q, e) / (norm(q) * norm(e))\<close>, which raises on vectors of different shapes;
  \<open>set_order\<close> is the order in which Python iterates over the set built from the given
  keys (it depends on the hash seed of the process).
\<close>

record env =
  api_key :: bool
  suggest :: "string \<Rightarrow> suggest_response"
  embed :: "string \<Rightarrow> real list option"
  use_qdrant :: bool
  query_points :: "real list \<Rightarrow> int \<Rightarrow> qdrant_point list option"
  cosine :: "real list \<Rightarrow> real list \<Rightarrow> py_error + real"
  set_order :: "string list \<Rightarrow> string list"

fun add_original ::
  "(string \<times> real) list \<Rightarrow> (string \<times> real) list \<times> string set \<Rightarrow> (string \<times> real) list \<times> string set" where
  "add_original [] acc = acc"
| "add_original ((term, weight) # rest) (weighted_terms, seen_terms) =
     (if term \<notin> seen_terms
      then add_original rest (weighted_terms @ [(term, weight)], insert term seen_terms)
      else add_original rest (weighted_terms, seen_terms))"

fun add_expanded ::
  "(nat \<times> string) list \<Rightarrow> (string \<times> real) list \<times> string set \<Rightarrow> (string \<times> real) list \<times> string set" where
  "add_expanded [] acc = acc"
| "add_expanded ((i, term0) # rest) (weighted_terms, seen_terms) =
     (let term = py_lower (py_strip term0)
      in if term \<noteq> [] \<and> term \<notin> seen_terms
         then add_expanded rest
                (weighted_terms @ [(term, 1 / (1 + 0.15 * real i))], insert term seen_terms)
         else add_expanded rest (weighted_terms, seen_terms))"

definition expand_query :: "env \<Rightarrow> string \<Rightarrow> (string \<times> real) list" where
  \<comment> \<open>\<open>SPLADESearch._expand_query\<close>\<close>
  "expand_query env query =
     (let original_tokens = tokenize query;
          original_terms = map (\<lambda>t. (t, 2)) original_tokens
      in if \<not> api_key env then original_terms
         else (case suggest env query of
                 Suggestion content \<Rightarrow>
                   (let expanded_text = py_strip content;
                        terms = map (\<lambda>t. py_lower (py_strip t)) (split_on CHR '','' expanded_text);
                        acc1 = add_original original_terms ([], {});
                        acc2 = add_expanded (enumerate 0 terms) acc1
                    in py_take 20 (fst acc2))
               | Bad_status \<Rightarrow> original_terms
               | Failed \<Rightarrow> original_terms))"

section \<open>The sparse index (SPLADESearch, api/v1/vectordb.py)\<close>

text \<open>
  The dictionaries \<open>doc_freqs\<close>, \<open>idf\<close> and \<open>term_weights\<close> are maps: only
  their lookups are observed. \<open>doc_lens\<close> is a list.
\<close>

record SPLADESearch =
  k1 :: real
  b :: real
  doc_freqs :: "string \<rightharpoonup> nat"
  doc_lens :: "nat list"
  avg_doc_len :: real
  n_docs :: nat
  idf :: "string \<rightharpoonup> real"
  term_weights :: "string \<rightharpoonup> (string \<rightharpoonup> real)"

definition SPLADESearch_init :: SPLADESearch where
  \<comment> \<open>\<open>SPLADESearch.__init__\<close> with its default parameters\<close>
  "SPLADESearch_init =
     \<lparr>k1 = 1.5, b = 0.75, doc_freqs = Map.empty, doc_lens = [], avg_doc_len = 0, n_docs = 0,
      idf = Map.empty, term_weights = Map.empty\<rparr>"

fun fit_loop :: "(string \<times> string) list \<Rightarrow> SPLADESearch \<Rightarrow> SPLADESearch" where
  \<comment> \<open>the loop of \<open>fit\<close> over \<open>zip(doc_ids, documents)\<close>\<close>
  "fit_loop [] s = s"
| "fit_loop ((doc_id, doc) # rest) s =
     (let tokens = tokenize doc;
          s1 = s\<lparr>doc_lens := doc_lens s @ [length tokens]\<rparr>;
          total_terms = length tokens;
          weights = (\<lambda>term. if term \<in> set tokens
                             then Some (if total_terms > 0
                                        then real (count_list tokens term) / real total_terms
                                        else 0)
                             else None);
          s2 = s1\<lparr>term_weights := (term_weights s1)(doc_id \<mapsto> weights)\<rparr>;
          s3 = s2\<lparr>doc_freqs := (\<lambda>term. if term \<in> set tokens
                                          then Some (case doc_freqs s2 term of None \<Rightarrow> 1 | Some n \<Rightarrow> n + 1)
                                          else doc_freqs s2 term)\<rparr>
      in fit_loop rest s3)"

definition fit :: "SPLADESearch \<Rightarrow> string list \<Rightarrow> string list \<Rightarrow> SPLADESearch" where
  \<comment> \<open>\<open>SPLADESearch.fit\<close>: \<open>n_docs\<close>, \<open>doc_lens\<close>, \<open>doc_freqs\<close> and \<open>term_weights\<close> are
      reset, \<open>idf\<close> is only written at the keys of the new \<open>doc_freqs\<close>\<close>
  "fit s documents doc_ids =
     (let s1 = s\<lparr>n_docs := length documents, doc_lens := [], doc_freqs := Map.empty,
                  term_weights := Map.empty\<rparr>;
          s2 = fit_loop (zip doc_ids documents) s1;
          s3 = s2\<lparr>avg_doc_len := (if n_docs s2 > 0
                                    then real (sum_list (doc_lens s2)) / real (n_docs s2)
                                    else 0)\<rparr>
      in s3\<lparr>idf := (\<lambda>term. case doc_freqs s3 term of
                              Some df \<Rightarrow> Some (ln ((real (n_docs s3) - real df + 0.5) / (real df + 0.5) + 1))
                            | None \<Rightarrow> idf s3 term)\<rparr>)"

fun is_substring :: "string \<Rightarrow> string \<Rightarrow> bool" where
  \<comment> \<open>\<open>p in s\<close> on strings\<close>
  "is_substring p [] = (p = [])"
| "is_substring p (c # cs) = (take (length p) (c # cs) = p \<or> is_substring p cs)"

definition py_index :: "'a list \<Rightarrow> int \<Rightarrow> py_error + 'a" where
  \<comment> \<open>\<open>xs[i]\<close>: the index \<open>-k\<close> reads the \<open>k\<close>-th element from the end; an index
      outside \<open>-len(xs) .. len(xs) - 1\<close> raises\<close>
  "py_index xs i =
     (if 0 \<le> i \<and> i < int (length xs) then Inr (xs ! nat i)
      else if i < 0 \<and> - int (length xs) \<le> i then Inr (xs ! nat (int (length xs) + i))
      else Inl IndexError)"

fun score_loop ::
  "SPLADESearch \<Rightarrow> nat \<Rightarrow> string list \<Rightarrow> string \<Rightarrow> (string \<times> real) list \<Rightarrow> real \<times> (string \<times> real) list
     \<Rightarrow> py_error + real \<times> (string \<times> real) list" where
  \<comment> \<open>the loop of \<open>score\<close> over the query terms, carrying \<open>(score, term_scores)\<close>;
      \<open>term_scores\<close> is a dictionary in insertion order\<close>
  "score_loop s doc_len doc_tokens doc_text [] acc = Inr acc"
| "score_loop s doc_len doc_tokens doc_text ((term, query_weight) # rest) (score, term_scores) =
     (let term_tokens = py_split term
      in if length term_tokens > 1 then
           (let doc_text_lower = py_lower doc_text
            in if is_substring term doc_text_lower
               then (let phrase_score = query_weight * 2
                     in score_loop s doc_len doc_tokens doc_text rest
                          (score + phrase_score, AList.update term phrase_score term_scores))
               else score_loop s doc_len doc_tokens doc_text rest (score, term_scores))
         else (case idf s term of
                 None \<Rightarrow> score_loop s doc_len doc_tokens doc_text rest (score, term_scores)
               | Some idf_t \<Rightarrow>
                   (let tf = count_list doc_tokens term
                    in if tf = 0 then score_loop s doc_len doc_tokens doc_text rest (score, term_scores)
                       else (let numerator = real tf * (k1 s + 1)
                             in if avg_doc_len s = 0 then Inl ZeroDivisionError
                                else (let denominator =
                                            real tf + k1 s * (1 - b s + b s * (real doc_len / avg_doc_len s));
                                          term_score = (if denominator > 0
                                                        then idf_t * (numerator / denominator) * query_weight
                                                        else 0)
                                      in score_loop s doc_len doc_tokens doc_text rest
                                           (score + term_score, AList.update term term_score term_scores))))))"

definition score ::
  "SPLADESearch \<Rightarrow> (string \<times> real) list \<Rightarrow> int \<Rightarrow> string \<Rightarrow> py_error + real \<times> (string \<times> real) list" where
  \<comment> \<open>\<open>SPLADESearch.score\<close>\<close>
  "score s query_terms doc_idx doc_text =
     (let doc_tokens = tokenize doc_text
      in case (if doc_idx < int (length (doc_lens s)) then py_index (doc_lens s) doc_idx
               else Inr (length doc_tokens)) of
           Inl e \<Rightarrow> Inl e
         | Inr doc_len \<Rightarrow> score_loop s doc_len doc_tokens doc_text query_terms (0, []))"

record splade_hit =
  h_idx :: nat
  h_doc_id :: string
  h_score :: real
  h_matched_terms :: "string list"

fun search_loop ::
  "SPLADESearch \<Rightarrow> (string \<times> real) list \<Rightarrow> (nat \<times> string \<times> string) list \<Rightarrow> splade_hit list
     \<Rightarrow> py_error + splade_hit list" where
  \<comment> \<open>the loop of \<open>SPLADESearch.search\<close> over \<open>enumerate(zip(documents, doc_ids))\<close>\<close>
  "search_loop s query_terms [] results = Inr results"
| "search_loop s query_terms ((idx, doc, doc_id) # rest) results =
     (case score s query_terms (int idx) doc of
        Inl e \<Rightarrow> Inl e
      | Inr (sc, term_scores) \<Rightarrow>
          (if sc > 0
           then search_loop s query_terms rest
                  (results @ [\<lparr>h_idx = idx, h_doc_id = doc_id, h_score = sc,
                                h_matched_terms = py_take 5 (map fst term_scores)\<rparr>])
           else search_loop s query_terms rest results))"

definition splade_search ::
  "env \<Rightarrow> SPLADESearch \<Rightarrow> string \<Rightarrow> string list \<Rightarrow> string list \<Rightarrow> int \<Rightarrow> py_error + splade_hit list" where
  \<comment> \<open>\<open>SPLADESearch.search\<close>; \<open>list.sort(reverse=True)\<close> is stable, as \<open>sort_key\<close> is\<close>
  "splade_search env s query documents doc_ids top_k =
     (let query_terms = expand_query env query
      in case search_loop s query_terms (enumerate 0 (zip documents doc_ids)) [] of
           Inl e \<Rightarrow> Inl e
         | Inr results \<Rightarrow> Inr (py_take top_k (sort_key (\<lambda>r. - h_score r) results)))"

section \<open>The hybrid store (HybridVectorStore, api/v1/vectordb.py)\<close>

record document =
  d_id :: string
  d_text :: string
  d_embedding :: "real list option"
  d_metadata :: metadata

text \<open>
  A search result, the dictionary built by the three search methods. A score that is
  \<open>None\<close> in Python is \<open>None\<close> here; \<open>matched_terms\<close> is read with the default \<open>[]\<close>.
\<close>

record result =
  r_id :: string
  r_text :: string
  r_dense_score :: "real option"
  r_sparse_score :: "real option"
  r_score :: real
  r_metadata :: metadata
  r_matched_terms :: "string list"
  r_search_engine :: string

record HybridVectorStore =
  documents :: "document list"
  splade :: SPLADESearch
  splade_fitted :: bool

definition rebuild_sparse_index :: "HybridVectorStore \<Rightarrow> HybridVectorStore" where
  \<comment> \<open>\<open>_rebuild_sparse_index\<close>\<close>
  "rebuild_sparse_index st =
     (if documents st \<noteq> []
      then (let texts = map d_text (documents st);
                doc_ids = map d_id (documents st)
            in st\<lparr>splade := fit (splade st) texts doc_ids, splade_fitted := True\<rparr>)
      else st)"

definition clear :: "HybridVectorStore \<Rightarrow> HybridVectorStore" where
  \<comment> \<open>\<open>clear\<close>, without the calls to the vector database\<close>
  "clear st = st\<lparr>documents := [], splade_fitted := False, splade := SPLADESearch_init\<rparr>"

definition get_embedding :: "env \<Rightarrow> string \<Rightarrow> real list option" where
  "get_embedding env text = (if \<not> api_key env then None else embed env (take 8000 text))"

definition round_half_even :: "real \<Rightarrow> int" where
  "round_half_even x =
     (let f = \<lfloor>x\<rfloor>; d = x - of_int f
      in if d < 1 / 2 then f else if d > 1 / 2 then f + 1 else if even f then f else f + 1)"

definition py_round :: "real \<Rightarrow> nat \<Rightarrow> real" where
  \<comment> \<open>\<open>round(x, n)\<close> on reals: to the nearest multiple of \<open>10^-n\<close>, ties to even\<close>
  "py_round x n = of_int (round_half_even (x * 10 ^ n)) / 10 ^ n"

definition normalize_dense_score :: "real \<Rightarrow> real" where
  \<comment> \<open>\<open>_normalize_dense_score\<close>\<close>
  "normalize_dense_score sc = max 0 (min 1 (if sc < 0 then (sc + 1) / 2 else sc))"

definition normalize_sparse_score :: "real \<Rightarrow> real" where
  \<comment> \<open>\<open>_normalize_sparse_score\<close> with \<open>max_possible = 30.0\<close>\<close>
  "normalize_sparse_score sc =
     (if sc \<le> 0 then 0 else (let scaled = min (sc * 3) 30 in py_round scaled 2))"

fun collect :: "('a \<Rightarrow> py_error + 'b option) \<Rightarrow> 'a list \<Rightarrow> 'b list \<Rightarrow> py_error + 'b list" where
  \<comment> \<open>a \<open>for\<close> loop appending to a list: an item may raise, be skipped, or add an entry\<close>
  "collect f [] acc = Inr acc"
| "collect f (x # xs) acc =
     (case f x of
        Inl e \<Rightarrow> Inl e
      | Inr None \<Rightarrow> collect f xs acc
      | Inr (Some y) \<Rightarrow> collect f xs (acc @ [y]))"

definition dense_fallback_entry :: "env \<Rightarrow> real list \<Rightarrow> document \<Rightarrow> py_error + result option" where
  \<comment> \<open>the body of the in-memory loop of \<open>search_dense\<close>\<close>
  "dense_fallback_entry env query_embedding doc =
     (case d_embedding doc of
        None \<Rightarrow> Inr None
      | Some e \<Rightarrow>
          (case cosine env query_embedding e of
             Inl err \<Rightarrow> Inl err
           | Inr sc \<Rightarrow>
               (let normalized_dense = normalize_dense_score sc
                in Inr (Some \<lparr>r_id = d_id doc, r_text = d_text doc,
                               r_dense_score = Some (py_round normalized_dense 4),
                               r_sparse_score = None,
                               r_score = py_round normalized_dense 4,
                               r_metadata = d_metadata doc, r_matched_terms = [],
                               r_search_engine = ''in_memory''\<rparr>))))"

definition qdrant_entry :: "qdrant_point \<Rightarrow> result" where
  \<comment> \<open>the body of the loop of \<open>search_dense\<close> over the points of the vector database\<close>
  "qdrant_entry r =
     (let normalized_dense = normalize_dense_score (p_score r)
      in \<lparr>r_id = p_id r, r_text = p_text r,
          r_dense_score = Some (py_round normalized_dense 4),
          r_sparse_score = None,
          r_score = py_round normalized_dense 4,
          r_metadata = p_payload r, r_matched_terms = [],
          r_search_engine = ''qdrant''\<rparr>)"

definition search_dense :: "env \<Rightarrow> HybridVectorStore \<Rightarrow> string \<Rightarrow> int \<Rightarrow> py_error + result list" where
  "search_dense env st query top_k =
     (if documents st = [] then Inr []
      else (case get_embedding env query of
              None \<Rightarrow> Inr []
            | Some query_embedding \<Rightarrow>
                (case (if use_qdrant env then query_points env query_embedding top_k else None) of
                   Some points \<Rightarrow> Inr (map qdrant_entry points)
                 | None \<Rightarrow>
                     (case collect (dense_fallback_entry env query_embedding) (documents st) [] of
                        Inl e \<Rightarrow> Inl e
                      | Inr results \<Rightarrow>
                          Inr (py_take top_k (sort_key (\<lambda>r. - r_score r) results))))))"

definition sparse_entry :: "HybridVectorStore \<Rightarrow> splade_hit \<Rightarrow> result" where
  \<comment> \<open>the body of the loop of \<open>search_sparse\<close>; \<open>h_idx\<close> comes from the enumeration of the
      documents, so the index is in range\<close>
  "sparse_entry st r =
     (let doc = documents st ! h_idx r;
          normalized_sparse = normalize_sparse_score (h_score r)
      in \<lparr>r_id = d_id doc, r_text = d_text doc,
          r_dense_score = None,
          r_sparse_score = Some normalized_sparse,
          r_score = normalized_sparse,
          r_metadata = d_metadata doc, r_matched_terms = h_matched_terms r,
          r_search_engine = ''splade''\<rparr>)"

definition search_sparse :: "env \<Rightarrow> HybridVectorStore \<Rightarrow> string \<Rightarrow> int \<Rightarrow> py_error + result list" where
  "search_sparse env st query top_k =
     (if documents st = [] \<or> \<not> splade_fitted st then Inr []
      else (let texts = map d_text (documents st);
                doc_ids = map d_id (documents st)
            in case splade_search env (splade st) query texts doc_ids (int (length texts)) of
                 Inl e \<Rightarrow> Inl e
               | Inr splade_results \<Rightarrow> Inr (py_take top_k (map (sparse_entry st) splade_results))))"

definition dict_of :: "('k \<times> 'v) list \<Rightarrow> ('k \<times> 'v) list" where
  \<comment> \<open>a dict comprehension: a later pair overwrites the value of an equal key, keys stay in
      the order of their first insertion\<close>
  "dict_of pairs = foldl (\<lambda>d (k, v). AList.update k v d) [] pairs"

definition dict_get :: "('k \<times> 'v) list \<Rightarrow> 'k \<Rightarrow> 'v \<Rightarrow> 'v" where
  \<comment> \<open>\<open>d.get(k, default)\<close>\<close>
  "dict_get d k dflt = (case map_of d k of None \<Rightarrow> dflt | Some v \<Rightarrow> v)"

definition num :: "real option \<Rightarrow> py_error + real" where
  \<comment> \<open>a value used in arithmetic or in a comparison: \<open>None\<close> raises TypeError\<close>
  "num v = (case v of None \<Rightarrow> Inl TypeError | Some x \<Rightarrow> Inr x)"

fun nums :: "real option list \<Rightarrow> py_error + real list" where
  "nums [] = Inr []"
| "nums (v # vs) =
     (case num v of
        Inl e \<Rightarrow> Inl e
      | Inr x \<Rightarrow> (case nums vs of Inl e \<Rightarrow> Inl e | Inr xs \<Rightarrow> Inr (x # xs)))"

fun max_list :: "real list \<Rightarrow> real" where
  \<comment> \<open>\<open>max(xs)\<close> of a non-empty list\<close>
  "max_list [] = 0"
| "max_list [x] = x"
| "max_list (x # xs) = max x (max_list xs)"

definition hybrid_entry ::
  "HybridVectorStore \<Rightarrow> result list \<Rightarrow> (string \<times> real option) list \<Rightarrow> (string \<times> real option) list
     \<Rightarrow> (string \<times> real) list \<Rightarrow> (string \<times> string list) list \<Rightarrow> real \<Rightarrow> real \<Rightarrow> string
     \<Rightarrow> py_error + result option" where
  \<comment> \<open>the body of the loop of \<open>search_hybrid\<close> over \<open>all_doc_ids\<close>\<close>
  "hybrid_entry st dense_results dense_scores_map sparse_scores_map sparse_scores_normalized
       matched_terms_map dense_weight sparse_weight doc_id =
     (case (case find (\<lambda>d. d_id d = doc_id) (documents st) of
              Some d \<Rightarrow> Some (d_text d, d_metadata d)
            | None \<Rightarrow> (case find (\<lambda>r. r_id r = doc_id) dense_results of
                         Some dense_r \<Rightarrow> Some (r_text dense_r, r_metadata dense_r)
                       | None \<Rightarrow> None)) of
        None \<Rightarrow> Inr None
      | Some (doc_text, doc_metadata) \<Rightarrow>
          (case num (dict_get dense_scores_map doc_id (Some 0)) of
             Inl e \<Rightarrow> Inl e
           | Inr d_score \<Rightarrow>
               (case num (dict_get sparse_scores_map doc_id (Some 0)) of
                  Inl e \<Rightarrow> Inl e
                | Inr s_score_raw \<Rightarrow>
                    (let s_score_norm = dict_get sparse_scores_normalized doc_id 0;
                         hybrid_score = d_score * dense_weight + s_score_norm * sparse_weight;
                         has_dense = (map_of dense_scores_map doc_id \<noteq> None \<and> d_score > 0);
                         has_sparse = (map_of sparse_scores_map doc_id \<noteq> None \<and> s_score_raw > 0);
                         hybrid_score' =
                           (if has_dense \<and> has_sparse
                            then (let synergy_boost = 0.1 * min d_score s_score_norm
                                  in min (hybrid_score + synergy_boost) 1)
                            else hybrid_score)
                     in Inr (Some \<lparr>r_id = doc_id, r_text = doc_text,
                                    r_dense_score = Some (py_round d_score 4),
                                    r_sparse_score = Some (py_round s_score_raw 2),
                                    r_score = py_round hybrid_score' 4,
                                    r_metadata = doc_metadata,
                                    r_matched_terms = dict_get matched_terms_map doc_id [],
                                    r_search_engine = ''hybrid''\<rparr>)))))"

definition search_hybrid ::
  "env \<Rightarrow> HybridVectorStore \<Rightarrow> string \<Rightarrow> int \<Rightarrow> real \<Rightarrow> py_error + result list" where
  "search_hybrid env st query top_k dense_weight =
     (if documents st = [] then Inr []
      else (let sparse_weight = 1 - dense_weight
            in case search_dense env st query (int (length (documents st))) of
                 Inl e \<Rightarrow> Inl e
               | Inr dense_results \<Rightarrow>
                   (let dense_scores_map = dict_of (map (\<lambda>r. (r_id r, r_dense_score r)) dense_results)
                    in case search_sparse env st query (int (length (documents st))) of
                         Inl e \<Rightarrow> Inl e
                       | Inr sparse_results \<Rightarrow>
                           (let sparse_scores_map =
                                  dict_of (map (\<lambda>r. (r_id r, r_sparse_score r)) sparse_results);
                                matched_terms_map =
                                  dict_of (map (\<lambda>r. (r_id r, r_matched_terms r)) sparse_results)
                            in case nums (map snd sparse_scores_map) of
                                 Inl e \<Rightarrow> Inl e
                               | Inr sparse_values \<Rightarrow>
                                   (let max_sparse = (if sparse_scores_map \<noteq> [] then max_list sparse_values
                                                      else 1);
                                        sparse_scores_normalized =
                                          map (\<lambda>(doc_id, sc). (doc_id, if max_sparse > 0 then sc / max_sparse else 0))
                                              (zip (map fst sparse_scores_map) sparse_values);
                                        all_doc_ids = set_order env (map fst dense_scores_map @ map fst sparse_scores_map)
                                    in case collect (hybrid_entry st dense_results dense_scores_map
                                                       sparse_scores_map sparse_scores_normalized
                                                       matched_terms_map dense_weight sparse_weight)
                                                    all_doc_ids [] of
                                         Inl e \<Rightarrow> Inl e
                                       | Inr combined_results \<Rightarrow>
                                           Inr (py_take top_k
                                                  (sort_key (\<lambda>r. - r_score r) combined_results)))))))"

definition search ::
  "env \<Rightarrow> HybridVectorStore \<Rightarrow> string \<Rightarrow> int \<Rightarrow> string \<Rightarrow> real \<Rightarrow> py_error + result list" where
  \<comment> \<open>\<open>HybridVectorStore.search\<close>: the last branch takes every other mode string\<close>
  "search env st query top_k mode dense_weight =
     (if mode = ''dense'' then search_dense env st query top_k
      else if mode = ''sparse'' then search_sparse env st query top_k
      else search_hybrid env st query top_k dense_weight)"

section \<open>Concrete collaborators and stores\<close>

text \<open>
  \<open>env_offline\<close>: no API key, no vector database. \<open>env_suggest c\<close>: the term-suggestion
  request answers \<open>c\<close>, the embedding request fails. Both iterate a set in the order of
  first insertion.
\<close>

definition first_seen :: "string list \<Rightarrow> string list" where
  "first_seen ks = rev (remdups (rev ks))"

definition env_offline :: env where
  "env_offline =
     \<lparr>api_key = False, suggest = (\<lambda>_. Failed), embed = (\<lambda>_. None), use_qdrant = False,
      query_points = (\<lambda>_ _. None), cosine = (\<lambda>_ _. Inl ValueError), set_order = first_seen\<rparr>"

definition env_suggest :: "string \<Rightarrow> env" where
  "env_suggest c =
     \<lparr>api_key = True, suggest = (\<lambda>_. Suggestion c), embed = (\<lambda>_. None), use_qdrant = False,
      query_points = (\<lambda>_ _. None), cosine = (\<lambda>_ _. Inl ValueError), set_order = first_seen\<rparr>"

definition candidates :: "string \<Rightarrow> string list" where
  \<comment> \<open>the list \<open>terms\<close> of \<open>_expand_query\<close>: the comma-separated fields of the answer,
      stripped and lowercased\<close>
  "candidates content = map (\<lambda>t. py_lower (py_strip t)) (split_on CHR '','' (py_strip content))"

definition phrase_bonus :: "string \<Rightarrow> string \<times> real \<Rightarrow> real" where
  \<comment> \<open>what a multi-word query term contributes to \<open>score\<close>: twice its weight when the term
      occurs in the lowercased text\<close>
  "phrase_bonus doc_text tw =
     (if length (py_split (fst tw)) > 1 \<and> is_substring (fst tw) (py_lower doc_text)
      then snd tw * 2 else 0)"

text \<open>
  A store of two documents that both contain the phrase \<open>stem cell\<close>, indexed from new,
  and collaborators whose vector database answers with one stored and one foreign point.
\<close>

definition docs_stem :: "document list" where
  "docs_stem =
     [\<lparr>d_id = ''a'', d_text = ''Stem cell therapy'', d_embedding = None, d_metadata = []\<rparr>,
      \<lparr>d_id = ''b'', d_text = ''stem cell biology'', d_embedding = None, d_metadata = []\<rparr>]"

definition store_stem :: HybridVectorStore where
  "store_stem =
     rebuild_sparse_index \<lparr>documents = docs_stem, splade = SPLADESearch_init, splade_fitted = False\<rparr>"

definition env_dense :: env where
  "env_dense =
     \<lparr>api_key = True, suggest = (\<lambda>_. Suggestion ''stem cell''), embed = (\<lambda>_. Some [1]),
      use_qdrant = True,
      query_points = (\<lambda>_ _. Some [\<lparr>p_id = ''a'', p_score = 1 / 2, p_text = ''Stem cell therapy'', p_payload = []\<rparr>,
                                    \<lparr>p_id = ''c'', p_score = - 1 / 2, p_text = ''old point'', p_payload = []\<rparr>]),
      cosine = (\<lambda>_ _. Inl ValueError), set_order = first_seen\<rparr>"

definition set_order_ok :: "env \<Rightarrow> bool" where
  \<comment> \<open>iterating over a set yields each of its elements once\<close>
  "set_order_ok env = (\<forall>ks. distinct (set_order env ks) \<and> set (set_order env ks) = set ks)"

section \<open>Fusion of the sparse results alone\<close>

definition sparse_only_fused ::
  "env \<Rightarrow> HybridVectorStore \<Rightarrow> string \<Rightarrow> int \<Rightarrow> real \<Rightarrow> py_error + result list" where
  \<comment> \<open>The fused ranking of the design document for a query whose dense list is empty,
      written from its words and not from \<open>search_hybrid\<close>: every id of the sparse batch gets
      the dense component 0 and, as sparse component, its sparse score divided by the
      maximum of the batch (0 when that maximum is 0); the fused score is the weighted sum,
      without synergy boost; the results are sorted by descending fused score and
      truncated to \<open>top_k\<close>.\<close>
  "sparse_only_fused env st query top_k dense_weight =
     (case search_sparse env st query (int (length (documents st))) of
        Inl e \<Rightarrow> Inl e
      | Inr sparse_results \<Rightarrow>
          (let sparse_score = dict_of (map (\<lambda>r. (r_id r, r_score r)) sparse_results);
               matched = dict_of (map (\<lambda>r. (r_id r, r_matched_terms r)) sparse_results);
               batch_max = max_list (map snd sparse_score);
               fused = (\<lambda>doc_id.
                  case find (\<lambda>d. d_id d = doc_id) (documents st) of
                    None \<Rightarrow> None
                  | Some d \<Rightarrow>
                      (let dense_component = 0;
                           raw = dict_get sparse_score doc_id 0;
                           sparse_component = (if batch_max > 0 then raw / batch_max else 0)
                       in Some \<lparr>r_id = doc_id, r_text = d_text d,
                                r_dense_score = Some dense_component,
                                r_sparse_score = Some (py_round raw 2),
                                r_score = py_round (dense_component * dense_weight
                                                    + sparse_component * (1 - dense_weight)) 4,
                                r_metadata = d_metadata d,
                                r_matched_terms = dict_get matched doc_id [],
                                r_search_engine = ''hybrid''\<rparr>))
           in Inr (py_take top_k
                     (sort_key (\<lambda>r. - r_score r)
                        (List.map_filter fused (set_order env (map fst sparse_score)))))))"

section \<open>Score ranges\<close>

definition dense_ok :: "result \<Rightarrow> bool" where
  \<comment> \<open>a dense result: its score is its dense score, in the unit interval\<close>
  "dense_ok r = (\<exists>d. r_dense_score r = Some d \<and> r_score r = d \<and> 0 \<le> d \<and> d \<le> 1)"

definition hybrid_ok :: "result \<Rightarrow> bool" where
  \<comment> \<open>a hybrid result: dense score and fused score in the unit interval\<close>
  "hybrid_ok r =
     ((\<exists>d. r_dense_score r = Some d \<and> 0 \<le> d \<and> d \<le> 1) \<and> 0 \<le> r_score r \<and> r_score r \<le> 1)"

definition env_suggest_rev :: "string \<Rightarrow> env" where
  \<comment> \<open>the collaborators \<open>env_suggest c\<close> in a process whose hash seed makes a set iterate
      in the opposite order\<close>
  "env_suggest_rev c = (env_suggest c)\<lparr>set_order := (\<lambda>ks. rev (first_seen ks))\<rparr>"

section \<open>TextChunker (services/embedding/chunker.py)\<close>

record TextChunk =
  tc_text :: string
  tc_index :: nat
  tc_section :: "string option"
  tc_token_count :: "int option"
  tc_metadata :: "metadata option"

record TextChunker =
  tc_chunk_size :: int
  tc_chunk_overlap :: int

definition py_or :: "int option \<Rightarrow> int \<Rightarrow> int" where
  \<comment> \<open>\<open>x or d\<close> for an optional integer: \<open>None\<close> and 0 give the default\<close>
  "py_or x d = (case x of None \<Rightarrow> d | Some v \<Rightarrow> if v = 0 then d else v)"

definition TextChunker_init :: "int option \<Rightarrow> int option \<Rightarrow> TextChunker" where
  \<comment> \<open>\<open>TextChunker.__init__\<close> with \<open>settings.CHUNK_SIZE = 500\<close>, \<open>settings.CHUNK_OVERLAP = 100\<close>\<close>
  "TextChunker_init chunk_size chunk_overlap =
     \<lparr>tc_chunk_size = py_or chunk_size 500, tc_chunk_overlap = py_or chunk_overlap 100\<rparr>"

definition py_int :: "real \<Rightarrow> int" where
  \<comment> \<open>\<open>int(x)\<close> of a float: truncation towards zero\<close>
  "py_int x = (if 0 \<le> x then \<lfloor>x\<rfloor> else \<lceil>x\<rceil>)"

subsection \<open>The regular expressions of clean_text\<close>

text \<open>
  \<open>re_sub m repl 0 s\<close> is \<open>re.sub\<close> for a pattern that never matches the empty string:
  \<open>m\<close> gives the length of the match at the head of its argument; the text is scanned from
  the left, a match is replaced by \<open>repl\<close> and the scan goes on behind it. The counter is
  the number of matched characters still to skip.
\<close>

fun re_sub :: "(string \<Rightarrow> nat option) \<Rightarrow> string \<Rightarrow> nat \<Rightarrow> string \<Rightarrow> string" where
  "re_sub m repl k [] = []"
| "re_sub m repl (Suc k) (c # cs) = re_sub m repl k cs"
| "re_sub m repl 0 (c # cs) =
     (case m (c # cs) of
        Some (Suc n) \<Rightarrow> repl @ re_sub m repl n cs
      | _ \<Rightarrow> c # re_sub m repl 0 cs)"

definition match_length :: "(string \<Rightarrow> string option) \<Rightarrow> string \<Rightarrow> nat option" where
  \<comment> \<open>from a matcher that returns the text behind the match\<close>
  "match_length mt s = (case mt s of None \<Rightarrow> None | Some rest \<Rightarrow> Some (length s - length rest))"

definition is_digit :: "char \<Rightarrow> bool" where
  "is_digit c = (48 \<le> (of_char c :: nat) \<and> (of_char c :: nat) \<le> 57)"

definition is_alpha :: "char \<Rightarrow> bool" where
  \<comment> \<open>\<open>[a-zA-Z]\<close>\<close>
  "is_alpha c = ((65 \<le> (of_char c :: nat) \<and> (of_char c :: nat) \<le> 90)
                 \<or> (97 \<le> (of_char c :: nat) \<and> (of_char c :: nat) \<le> 122))"

definition digits_plus :: "string \<Rightarrow> string option" where
  \<comment> \<open>\<open>\d+\<close>, greedy\<close>
  "digits_plus s = (case s of [] \<Rightarrow> None | c # cs \<Rightarrow> if is_digit c then Some (dropWhile is_digit cs) else None)"

datatype ref_state = Ref_need_digit | Ref_in_number | Ref_after_comma

fun ref_scan :: "ref_state \<Rightarrow> string \<Rightarrow> string option" where
  \<comment> \<open>\<open>\d+(?:,\s*\d+)*\]\<close> behind the opening bracket; every step of the pattern is
      decided by the next character\<close>
  "ref_scan st [] = None"
| "ref_scan Ref_need_digit (c # cs) = (if is_digit c then ref_scan Ref_in_number cs else None)"
| "ref_scan Ref_in_number (c # cs) =
     (if is_digit c then ref_scan Ref_in_number cs
      else if c = CHR '','' then ref_scan Ref_after_comma cs
      else if c = CHR '']'' then Some cs
      else None)"
| "ref_scan Ref_after_comma (c # cs) =
     (if is_space c then ref_scan Ref_after_comma cs
      else if is_digit c then ref_scan Ref_in_number cs
      else None)"

definition match_reference :: "string \<Rightarrow> string option" where
  \<comment> \<open>\<open>\[\d+(?:,\s*\d+)*\]\<close>\<close>
  "match_reference s = (case s of [] \<Rightarrow> None | c # cs \<Rightarrow> if c = CHR ''['' then ref_scan Ref_need_digit cs else None)"

definition match_figure :: "string \<Rightarrow> string option" where
  \<comment> \<open>\<open>\((?:Fig(?:ure)?|Table)\s*\.?\s*\d+[a-zA-Z]?\)\<close>, ignoring case\<close>
  "match_figure s =
     (case s of
        [] \<Rightarrow> None
      | c # r \<Rightarrow>
          if c \<noteq> CHR ''('' then None
          else (let l = py_lower r
                in case (if take 6 l = ''figure'' then Some (drop 6 r)
                         else if take 3 l = ''fig'' then Some (drop 3 r)
                         else if take 5 l = ''table'' then Some (drop 5 r)
                         else None) of
                     None \<Rightarrow> None
                   | Some r1 \<Rightarrow>
                       (let r2 = dropWhile is_space r1;
                            r3 = (case r2 of [] \<Rightarrow> r2 | d # t \<Rightarrow> if d = CHR ''.'' then t else r2);
                            r4 = dropWhile is_space r3
                        in case digits_plus r4 of
                             None \<Rightarrow> None
                           | Some r5 \<Rightarrow>
                               (let r6 = (case r5 of [] \<Rightarrow> r5 | a # t \<Rightarrow> if is_alpha a then t else r5)
                                in case r6 of
                                     [] \<Rightarrow> None
                                   | p # rest \<Rightarrow> if p = CHR '')'' then Some rest else None))))"

fun squeeze_spaces :: "bool \<Rightarrow> string \<Rightarrow> string" where
  \<comment> \<open>\<open>re.sub(r'\s+', ' ', text)\<close>; the flag says that the previous character was whitespace\<close>
  "squeeze_spaces prev [] = []"
| "squeeze_spaces prev (c # cs) =
     (if is_space c then (if prev then squeeze_spaces True cs else CHR '' '' # squeeze_spaces True cs)
      else c # squeeze_spaces False cs)"

definition match_url :: "string \<Rightarrow> string option" where
  \<comment> \<open>\<open>http[s]?://\S+\<close>\<close>
  "match_url s =
     (if take 4 s = ''http''
      then (let r = drop 4 s;
                r1 = (case r of [] \<Rightarrow> r | c # t \<Rightarrow> if c = CHR ''s'' then t else r)
            in if take 3 r1 = ''://''
               then (case drop 3 r1 of
                       [] \<Rightarrow> None
                     | c # t \<Rightarrow> if is_space c then None else Some (dropWhile (\<lambda>x. \<not> is_space x) t))
               else None)
      else None)"

definition clean_text :: "string \<Rightarrow> string" where
  "clean_text text =
     (if text = [] then []
      else (let text1 = re_sub (match_length match_reference) [] 0 text;
                text2 = re_sub (match_length match_figure) [] 0 text1;
                text3 = squeeze_spaces False text2;
                text4 = re_sub (match_length match_url) [] 0 text3
            in py_strip text4))"

subsection \<open>chunk_by_tokens\<close>

definition estimate_tokens :: "string \<Rightarrow> int" where
  "estimate_tokens text = (let words = int (length (py_split text)) in py_int (real_of_int words * 1.3))"

text \<open>The \<open>while\<close> loop of \<open>chunk_by_tokens\<close>; \<open>None\<close> is the loop that never returns.\<close>

partial_function (option) chunk_by_tokens_loop ::
  "string list \<Rightarrow> int \<Rightarrow> int \<Rightarrow> int \<Rightarrow> TextChunk list \<Rightarrow> TextChunk list option" where
  "chunk_by_tokens_loop words words_per_chunk words_overlap start chunks =
     (if start < int (length words) then
        (let end = min (start + words_per_chunk) (int (length words));
             chunk_words = py_slice words start end;
             chunk_text = join chunk_words;
             chunks' = chunks @ [\<lparr>tc_text = chunk_text, tc_index = length chunks, tc_section = None,
                                   tc_token_count = Some (estimate_tokens chunk_text),
                                   tc_metadata = None\<rparr>];
             start' = end - words_overlap
         in if start' \<ge> int (length words) - words_overlap then Some chunks'
            else chunk_by_tokens_loop words words_per_chunk words_overlap start' chunks')
      else Some chunks)"

definition chunk_by_tokens ::
  "TextChunker \<Rightarrow> string \<Rightarrow> int option \<Rightarrow> int option \<Rightarrow> TextChunk list option" where
  "chunk_by_tokens self text0 chunk_size0 overlap0 =
     (let chunk_size = py_or chunk_size0 (tc_chunk_size self);
          overlap = py_or overlap0 (tc_chunk_overlap self);
          text = clean_text text0
      in if text = [] then Some []
         else (let words = py_split text
               in if words = [] then Some []
                  else (let words_per_chunk = py_int (real_of_int chunk_size / 1.3);
                            words_overlap = py_int (real_of_int overlap / 1.3)
                        in chunk_by_tokens_loop words words_per_chunk words_overlap 0 [])))"

definition plain_word :: "string \<Rightarrow> bool" where
  \<comment> \<open>a non-empty word without whitespace, bracket, parenthesis or colon: nothing in it
      can start a match of the patterns of \<open>clean_text\<close>\<close>
  "plain_word w =
     (w \<noteq> [] \<and> (\<forall>c \<in> set w. \<not> is_space c \<and> c \<noteq> CHR ''['' \<and> c \<noteq> CHR ''('' \<and> c \<noteq> CHR '':''))"

definition word_chunk :: "nat \<Rightarrow> nat \<Rightarrow> TextChunk" where
  \<comment> \<open>the chunk number \<open>i\<close> made of \<open>n\<close> copies of the word \<open>word\<close>\<close>
  "word_chunk n i =
     \<lparr>tc_text = join (replicate n ''word''), tc_index = i, tc_section = None,
      tc_token_count = Some (py_int (real n * 1.3)), tc_metadata = None\<rparr>"

section \<open>Termination of chunk_text\<close>

lemma chunk_text_loop_returns:
  assumes "0 \<le> overlap" "overlap < chunk_size"
  shows "\<exists>ys. chunk_text_loop words chunk_size overlap start chunks = Some ys"
proof (induction "nat (int (length words) - start)" arbitrary: start chunks rule: less_induct)
  case less
  show ?case
  proof (cases "start < int (length words)")
    case False
    then show ?thesis by (subst chunk_text_loop.simps) simp
  next
    case True
    define e where "e = min (start + chunk_size) (int (length words))"
    show ?thesis
    proof (cases "e - overlap \<ge> int (length words) - overlap")
      case True
      with \<open>start < int (length words)\<close> show ?thesis
        by (subst chunk_text_loop.simps) (simp add: Let_def e_def)
    next
      case False
      then have e: "e = start + chunk_size" "e < int (length words)"
        by (auto simp: e_def min_def split: if_splits)
      with assms True
      have "nat (int (length words) - (e - overlap)) < nat (int (length words) - start)"
        by linarith
      from less [OF this] obtain ys where
        "chunk_text_loop words chunk_size overlap (e - overlap)
           (chunks @ [join (py_slice words start e)]) = Some ys"
        by blast
      with True False show ?thesis
        by (subst chunk_text_loop.simps) (simp add: Let_def e_def)
    qed
  qed
qed

lemma chunk_text_loop_stuck_aux:
  assumes "chunk_text_loop ws cs ov st chunks = Some ys"
  shows "\<not> (ws = [u, v] \<and> cs = 1 \<and> ov = 1 \<and> st = 0)"
proof (rule chunk_text_loop.raw_induct [where P = "\<lambda>ws cs ov st chunks ys. \<not> (ws = [u, v] \<and> cs = 1 \<and> ov = 1 \<and> st = 0)", OF _ assms])
  fix f ws cs ov st chunks ys
  assume IH: "\<And>ws cs ov st chunks ys. f ws cs ov st chunks = Some ys \<Longrightarrow> \<not> (ws = [u, v] \<and> cs = 1 \<and> ov = 1 \<and> st = 0)"
    and step: "(if st < int (length ws)
      then let end = min (st + cs) (int (length ws));
               chunk = join (py_slice ws st end);
               chunks' = chunks @ [chunk]; start' = end - ov
           in if int (length ws) - ov \<le> start' then Some chunks'
              else f ws cs ov start' chunks'
      else Some chunks) = Some ys"
  show "\<not> (ws = [u, v] \<and> cs = 1 \<and> ov = 1 \<and> st = 0)"
  proof
    assume h: "ws = [u, v] \<and> cs = 1 \<and> ov = 1 \<and> st = 0"
    from step h have "f [u, v] 1 1 0 (chunks @ [join (py_slice [u, v] 0 1)]) = Some ys"
      by (simp add: Let_def)
    from IH [OF this] show False by simp
  qed
qed

lemma chunk_text_loop_stuck: "chunk_text_loop [u, v] 1 1 0 chunks = None"
  using chunk_text_loop_stuck_aux [of "[u, v]" 1 1 0 chunks _ u v]
  by (cases "chunk_text_loop [u, v] 1 1 0 chunks") auto

text \<open>
  C10: \<open>chunk_text\<close> returns a list for every text whenever \<open>0 \<le> overlap < chunk_size\<close>.
  The loop itself has no guard for \<open>overlap \<ge> chunk_size\<close>: on the two-word text
  \<open>a b\<close> with \<open>chunk_size = overlap = 1\<close> it never returns.
\<close>

theorem chunk_text_terminates:
  "(0 \<le> overlap \<and> overlap < chunk_size \<longrightarrow> (\<exists>chunks. chunk_text text chunk_size overlap = Some chunks))
   \<and> chunk_text ''a b'' 1 1 = None"
proof
  show "0 \<le> overlap \<and> overlap < chunk_size \<longrightarrow> (\<exists>chunks. chunk_text text chunk_size overlap = Some chunks)"
    using chunk_text_loop_returns [of overlap chunk_size "py_split text" 0 "[]"]
    by (auto simp: chunk_text_def Let_def)
  show "chunk_text ''a b'' 1 1 = None"
    by (simp add: chunk_text_def py_split_def is_space_def chunk_text_loop_stuck)
qed

theorem chunk_text_terminates_witness:
  "(0::int) \<le> 1 \<and> (1::int) < 2 \<and> chunk_text ''a b c'' 2 1 = Some [''a b'', ''b c'']"
proof -
  have "\<exists>chunks. chunk_text ''a b c'' 2 1 = Some chunks"
    using chunk_text_terminates [of 1 2 "''a b c''"] by simp
  moreover have "chunk_text ''a b c'' 2 1 = Some [''a b'', ''b c'']"
    by (simp add: chunk_text_def py_split_def is_space_def chunk_text_loop.simps Let_def py_slice_def)
  ultimately show ?thesis by simp
qed

section \<open>Query expansion\<close>

lemma tokenize_gene_gene: "tokenize ''gene gene'' = [''gene'', ''gene'']"
  by (simp add: tokenize_def py_lower_def lower_char_def is_word_char_def is_space_def py_split_def)

lemma tokenize_21: "length (tokenize ''aa ab ac ad ae af ag ah ai aj ak al am an ao ap aq ar as at au'') = 21"
  by (simp add: tokenize_def py_lower_def lower_char_def is_word_char_def is_space_def py_split_def)

lemma tokenize_crispr_gene: "tokenize ''crispr gene'' = [''crispr'', ''gene'']"
  by (simp add: tokenize_def py_lower_def lower_char_def is_word_char_def is_space_def py_split_def)

lemma is_space_lower [simp]: "is_space (lower_char c) = is_space c"
  by (cases c) (auto simp: is_space_def lower_char_def)

lemma dropWhile_id: "xs = [] \<or> \<not> P (hd xs) \<Longrightarrow> dropWhile P xs = xs"
  by (cases xs) auto

lemma lower_char_idem [simp]: "lower_char (lower_char c) = lower_char c"
  by (cases c) (auto simp: lower_char_def)

lemma strip_ends:
  "py_strip s = [] \<or> (\<not> is_space (hd (py_strip s)) \<and> \<not> is_space (last (py_strip s)))"
proof -
  define t where "t = dropWhile is_space s"
  define u where "u = dropWhile is_space (rev t)"
  have ps: "py_strip s = rev u" by (simp add: py_strip_def t_def u_def)
  show ?thesis
  proof (cases "u = []")
    case True
    then show ?thesis by (simp add: ps)
  next
    case False
    then have hu: "\<not> is_space (hd u)" unfolding u_def by (metis hd_dropWhile)
    have "rev t = takeWhile is_space (rev t) @ u" by (simp add: u_def)
    then have "t = rev u @ rev (takeWhile is_space (rev t))"
      by (metis rev_append rev_rev_ident)
    with False have "t \<noteq> []" "hd t = hd (rev u)"
      by (auto simp: hd_append intro: arg_cong [where f = hd] split: if_splits) (metis False hd_append2 rev_is_Nil_conv)
    then have "\<not> is_space (hd (rev u))" unfolding t_def by (metis hd_dropWhile)
    with hu False show ?thesis by (simp add: ps last_rev)
  qed
qed

lemma strip_fixed:
  assumes "w = [] \<or> (\<not> is_space (hd w) \<and> \<not> is_space (last w))"
  shows "py_strip w = w"
proof (cases "w = []")
  case True
  then show ?thesis by (simp add: py_strip_def)
next
  case False
  with assms have "dropWhile is_space w = w" by (simp add: dropWhile_id)
  moreover from False assms have "dropWhile is_space (rev w) = rev w"
    by (simp add: dropWhile_id hd_rev)
  ultimately show ?thesis by (simp add: py_strip_def)
qed

lemma norm_idem: "py_lower (py_strip (py_lower (py_strip s))) = py_lower (py_strip s)"
proof -
  define v where "v = py_strip s"
  have v: "v = [] \<or> (\<not> is_space (hd v) \<and> \<not> is_space (last v))"
    unfolding v_def by (rule strip_ends)
  then have "py_strip (py_lower v) = py_lower v"
    by (intro strip_fixed) (auto simp: py_lower_def hd_map last_map)
  then show ?thesis by (simp add: v_def [symmetric] py_lower_def)
qed

lemma add_expanded_enumerate:
  assumes "\<forall>t \<in> set xs. py_lower (py_strip t) = t"
  shows "add_expanded (enumerate k xs) (wt, seen)
     = (wt @ map (\<lambda>(i, t). (t, 1 / (1 + 0.15 * real i)))
               (filter (\<lambda>(i, t). t \<noteq> [] \<and> t \<notin> seen \<and> t \<notin> set (take (i - k) xs)) (enumerate k xs)),
        seen \<union> {t \<in> set xs. t \<noteq> []})"
  using assms
proof (induction xs arbitrary: k wt seen)
  case Nil
  then show ?case by simp
next
  case (Cons x xs)
  have nx: "py_lower (py_strip x) = x" using Cons.prems by simp
  have rest: "\<forall>t \<in> set xs. py_lower (py_strip t) = t" using Cons.prems by simp
  have flt: "filter (\<lambda>(i, t). t \<noteq> [] \<and> t \<notin> S \<and> t \<notin> set (take (i - Suc k) xs)) (enumerate (Suc k) xs)
           = filter (\<lambda>(i, t). t \<noteq> [] \<and> t \<notin> seen \<and> t \<notin> set (take (i - k) (x # xs))) (enumerate (Suc k) xs)"
    if "S = insert x seen \<or> (S = seen \<and> (x = [] \<or> x \<in> seen))" for S
  proof (rule filter_cong [OF refl])
    fix p assume mem: "p \<in> set (enumerate (Suc k) xs)"
    obtain i t where p: "p = (i, t)" by (cases p)
    with mem have "Suc k \<le> i" by (simp add: in_set_enumerate_eq)
    then have "i - k = Suc (i - Suc k)" by simp
    with that p show "(case p of (i, t) \<Rightarrow> t \<noteq> [] \<and> t \<notin> S \<and> t \<notin> set (take (i - Suc k) xs))
        = (case p of (i, t) \<Rightarrow> t \<noteq> [] \<and> t \<notin> seen \<and> t \<notin> set (take (i - k) (x # xs)))"
      by auto
  qed
  show ?case
  proof (cases "x \<noteq> [] \<and> x \<notin> seen")
    case True
    then show ?thesis
      using Cons.IH [OF rest, of "Suc k" "wt @ [(x, 1 / (1 + 0.15 * real k))]" "insert x seen"]
        flt [of "insert x seen"]
      by (auto simp: nx Let_def)
  next
    case False
    then show ?thesis
      using Cons.IH [OF rest, of "Suc k" wt seen] flt [of seen]
      by (auto simp: nx Let_def)
  qed
qed

lemma add_original_enumerate:
  "add_original (map (\<lambda>t. (t, w)) ts) (wt, seen)
     = (wt @ map (\<lambda>(i, t). (t, w))
               (filter (\<lambda>(i, t). t \<notin> seen \<and> t \<notin> set (take (i - k) ts)) (enumerate k ts)),
        seen \<union> set ts)"
proof (induction ts arbitrary: k wt seen)
  case Nil
  then show ?case by simp
next
  case (Cons x xs)
  have flt: "filter (\<lambda>(i, t). t \<notin> insert x seen \<and> t \<notin> set (take (i - Suc k) xs)) (enumerate (Suc k) xs)
           = filter (\<lambda>(i, t). t \<notin> seen \<and> t \<notin> set (take (i - k) (x # xs))) (enumerate (Suc k) xs)"
  proof (rule filter_cong [OF refl])
    fix p assume mem: "p \<in> set (enumerate (Suc k) xs)"
    obtain i t where p: "p = (i, t)" by (cases p)
    with mem have "Suc k \<le> i" by (simp add: in_set_enumerate_eq)
    then have "i - k = Suc (i - Suc k)" by simp
    with p show "(case p of (i, t) \<Rightarrow> t \<notin> insert x seen \<and> t \<notin> set (take (i - Suc k) xs))
        = (case p of (i, t) \<Rightarrow> t \<notin> seen \<and> t \<notin> set (take (i - k) (x # xs)))"
      by auto
  qed
  show ?case
  proof (cases "x \<notin> seen")
    case True
    then show ?thesis
      using Cons.IH [of "wt @ [(x, w)]" "insert x seen" "Suc k"] flt
      by auto
  next
    case False
    then have "insert x seen = seen" by auto
    with False show ?thesis
      using Cons.IH [of wt seen "Suc k"] flt
      by auto
  qed
qed

text \<open>
  C5 (the code departs from the claim): without an API key \<open>_expand_query\<close> returns one
  term for every token of the query, so the query \<open>gene gene\<close> gives the term
  \<open>gene\<close> twice and a query of 21 tokens gives 21 terms.
\<close>

theorem expand_query_fallback_unbounded:
  "expand_query env_offline ''gene gene'' = [(''gene'', 2), (''gene'', 2)]
   \<and> length (expand_query env_offline ''aa ab ac ad ae af ag ah ai aj ak al am an ao ap aq ar as at au'') = 21"
  by (simp add: expand_query_def env_offline_def tokenize_gene_gene tokenize_21)

text \<open>
  C6 as stated fails: for the query \<open>crispr gene\<close> and the answer
  \<open>crispr, gene, cas9\<close> the first newly added term \<open>cas9\<close> gets the weight
  \<open>1 / (1 + 0.15 * 2)\<close>, not \<open>1 / (1 + 0.15 * 0)\<close>.
\<close>

theorem expand_query_weight_counterexample:
  "expand_query (env_suggest ''crispr, gene, cas9'') ''crispr gene''
     = [(''crispr'', 2), (''gene'', 2), (''cas9'', 10 / 13)]
   \<and> (10 / 13 :: real) \<noteq> 1 / (1 + 0.15 * real 0)"
  by (simp add: expand_query_def env_suggest_def tokenize_crispr_gene py_lower_def lower_char_def
      is_space_def py_strip_def py_take_def py_slice_def Let_def)

text \<open>
  C6, amended: when the collaborator answers, the result is (up to the limit of 20) the
  distinct tokens of the query with weight 2, followed by every candidate that is not
  empty, not a token of the query and not an earlier candidate, with the weight
  \<open>1 / (1 + 0.15 * i)\<close> where \<open>i\<close> is the 0-indexed position of the candidate in the
  whole candidate list.
\<close>

theorem expand_query_weight_by_position:
  assumes "api_key env" and "suggest env query = Suggestion content"
  shows "expand_query env query =
     py_take 20
       (map (\<lambda>(i, t). (t, 2))
            (filter (\<lambda>(i, t). t \<notin> set (take i (tokenize query))) (enumerate 0 (tokenize query)))
        @ map (\<lambda>(i, t). (t, 1 / (1 + 0.15 * real i)))
              (filter (\<lambda>(i, t). t \<noteq> [] \<and> t \<notin> set (tokenize query)
                                \<and> t \<notin> set (take i (candidates content)))
                      (enumerate 0 (candidates content))))"
proof -
  have norm: "\<forall>t \<in> set (candidates content). py_lower (py_strip t) = t"
    by (auto simp: candidates_def norm_idem)
  show ?thesis
    using assms
    by (simp add: expand_query_def Let_def candidates_def [symmetric]
        add_original_enumerate [where k = 0] add_expanded_enumerate [OF norm, where k = 0])
qed

theorem expand_query_weight_by_position_witness:
  "api_key (env_suggest ''crispr, gene, cas9'')
   \<and> suggest (env_suggest ''crispr, gene, cas9'') ''crispr gene'' = Suggestion ''crispr, gene, cas9''
   \<and> expand_query (env_suggest ''crispr, gene, cas9'') ''crispr gene''
       = [(''crispr'', 2), (''gene'', 2), (''cas9'', 1 / (1 + 0.15 * real 2))]"
proof -
  have k: "api_key (env_suggest ''crispr, gene, cas9'')"
    and s: "suggest (env_suggest ''crispr, gene, cas9'') ''crispr gene'' = Suggestion ''crispr, gene, cas9''"
    by (simp_all add: env_suggest_def)
  have c: "candidates ''crispr, gene, cas9'' = [''crispr'', ''gene'', ''cas9'']"
    by (simp add: candidates_def py_strip_def py_lower_def lower_char_def is_space_def)
  show ?thesis
    using expand_query_weight_by_position [OF k s] k s
    by (simp add: c tokenize_crispr_gene py_take_def py_slice_def)
qed

section \<open>The sparse index\<close>

lemmas tok_defs = tokenize_def py_lower_def lower_char_def is_word_char_def is_space_def py_split_def Let_def

lemma tokenize_alpha_beta: "tokenize ''alpha beta'' = [''alpha'', ''beta'']"
  by (simp add: tok_defs)
lemma tokenize_gamma_delta: "tokenize ''gamma delta'' = [''gamma'', ''delta'']"
  by (simp add: tok_defs)
lemma tokenize_alpha: "tokenize ''alpha'' = [''alpha'']"
  by (simp add: tok_defs)

lemma idf_refit:
  "idf (fit (fit SPLADESearch_init [''alpha beta''] [''1'']) [''gamma delta''] [''2'']) ''alpha'' = Some (ln (4 / 3))"
  by (simp add: fit_def SPLADESearch_init_def tokenize_alpha_beta tokenize_gamma_delta Let_def)

lemma idf_fresh:
  "idf (fit SPLADESearch_init [''gamma delta''] [''2'']) ''alpha'' = None"
  by (simp add: fit_def SPLADESearch_init_def tokenize_gamma_delta Let_def)

lemma refit_fields:
  "doc_lens (fit (fit SPLADESearch_init [''alpha beta''] [''1'']) [''gamma delta''] [''2'']) = [2]"
  "avg_doc_len (fit (fit SPLADESearch_init [''alpha beta''] [''1'']) [''gamma delta''] [''2'']) = 2"
  "k1 (fit (fit SPLADESearch_init [''alpha beta''] [''1'']) [''gamma delta''] [''2'']) = 3/2"
  "b (fit (fit SPLADESearch_init [''alpha beta''] [''1'']) [''gamma delta''] [''2'']) = 3/4"
  by (simp_all add: fit_def SPLADESearch_init_def tokenize_alpha_beta tokenize_gamma_delta Let_def)

lemma fresh_fields:
  "doc_lens (fit SPLADESearch_init [''gamma delta''] [''2'']) = [2]"
  by (simp add: fit_def SPLADESearch_init_def tokenize_gamma_delta Let_def)

lemma split_alpha: "py_split ''alpha'' = [''alpha'']"
  by (simp add: py_split_def is_space_def)

text \<open>
  C2 (the code departs from the claim): \<open>fit\<close> resets \<open>doc_lens\<close>, \<open>doc_freqs\<close> and
  \<open>term_weights\<close> but not \<open>idf\<close>. After fitting \<open>alpha beta\<close> and then
  \<open>gamma delta\<close> the term \<open>alpha\<close> still has an idf value, which a fresh index
  fitted on \<open>gamma delta\<close> does not have; the two indexes differ and score the text
  \<open>alpha\<close> differently.
\<close>

theorem fit_keeps_stale_idf:
  "idf (fit (fit SPLADESearch_init [''alpha beta''] [''1'']) [''gamma delta''] [''2'']) ''alpha'' = Some (ln (4 / 3))
   \<and> idf (fit SPLADESearch_init [''gamma delta''] [''2'']) ''alpha'' = None
   \<and> score (fit (fit SPLADESearch_init [''alpha beta''] [''1'']) [''gamma delta''] [''2''])
        [(''alpha'', 2)] 0 ''alpha'' = Inr (2 * ln (4 / 3), [(''alpha'', 2 * ln (4 / 3))])
   \<and> (0::real) < 2 * ln (4 / 3)
   \<and> score (fit SPLADESearch_init [''gamma delta''] [''2'']) [(''alpha'', 2)] 0 ''alpha'' = Inr (0, [])
   \<and> fit (fit SPLADESearch_init [''alpha beta''] [''1'']) [''gamma delta''] [''2'']
       \<noteq> fit SPLADESearch_init [''gamma delta''] [''2'']"
proof -
  have "score (fit (fit SPLADESearch_init [''alpha beta''] [''1'']) [''gamma delta''] [''2''])
        [(''alpha'', 2)] 0 ''alpha'' = Inr (2 * ln (4 / 3), [(''alpha'', 2 * ln (4 / 3))])"
    by (simp add: score_def idf_refit refit_fields tokenize_alpha split_alpha py_index_def Let_def)
  moreover have "score (fit SPLADESearch_init [''gamma delta''] [''2'']) [(''alpha'', 2)] 0 ''alpha'' = Inr (0, [])"
    by (simp add: score_def idf_fresh fresh_fields split_alpha tokenize_alpha py_index_def Let_def)
  moreover have "fit (fit SPLADESearch_init [''alpha beta''] [''1'']) [''gamma delta''] [''2'']
       \<noteq> fit SPLADESearch_init [''gamma delta''] [''2'']"
    using idf_refit idf_fresh by (metis option.distinct(1))
  ultimately show ?thesis using idf_refit idf_fresh by simp
qed

lemma score_loop_no_idf:
  assumes "idf s = Map.empty"
  shows "\<exists>ts. score_loop s doc_len doc_tokens doc_text query_terms (sc, term_scores)
           = Inr (sc + sum_list (map (phrase_bonus doc_text) query_terms), ts)"
proof (induction query_terms arbitrary: sc term_scores)
  case Nil
  then show ?case by simp
next
  case (Cons q qs)
  obtain t w where q: "q = (t, w)" by (cases q)
  show ?case
  proof (cases "length (py_split t) > 1")
    case False
    with Cons.IH [of sc term_scores] show ?thesis
      by (simp add: q assms phrase_bonus_def)
  next
    case True
    show ?thesis
    proof (cases "is_substring t (py_lower doc_text)")
      case False
      with True Cons.IH [of sc term_scores] show ?thesis
        by (simp add: q phrase_bonus_def)
    next
      case sub: True
      from Cons.IH [of "sc + w * 2" "AList.update t (w * 2) term_scores"]
      show ?thesis using True sub
        by (simp add: q phrase_bonus_def Let_def add.assoc)
    qed
  qed
qed

lemma empty_fit: 
  "n_docs (fit SPLADESearch_init [] []) = 0" "avg_doc_len (fit SPLADESearch_init [] []) = 0"
  "idf (fit SPLADESearch_init [] []) = Map.empty" "doc_lens (fit SPLADESearch_init [] []) = []"
  by (simp_all add: fit_def SPLADESearch_init_def Let_def)

text \<open>
  C4 as stated fails: a multi-word query term is scored without the index, so on the
  index fitted on the empty corpus the term \<open>stem cell\<close> with weight 2 scores 4 on a
  text that contains it.
\<close>

theorem score_empty_corpus_counterexample:
  "n_docs (fit SPLADESearch_init [] []) = 0 \<and> avg_doc_len (fit SPLADESearch_init [] []) = 0
   \<and> score (fit SPLADESearch_init [] []) [(''stem cell'', 2)] 0 ''Stem cell therapy'' = Inr (4, [(''stem cell'', 4)])"
  by (simp add: empty_fit score_def py_split_def is_space_def py_lower_def lower_char_def)

text \<open>
  C4, amended: on an index whose \<open>idf\<close> table is empty (a new index, or one fitted on
  the empty corpus from new) \<open>score\<close> with a document index \<open>doc_idx \<ge> 0\<close> returns
  without dividing: every single-token term contributes 0 and the total is the sum of
  the phrase bonuses of the multi-word terms, twice the weight of each one that occurs in
  the lowercased text.
\<close>

theorem score_empty_index:
  assumes "idf s = Map.empty" and "0 \<le> doc_idx"
  shows "\<exists>ts. score s query_terms doc_idx doc_text
           = Inr (sum_list (map (phrase_bonus doc_text) query_terms), ts)"
proof -
  have "\<exists>dl. (if doc_idx < int (length (doc_lens s)) then py_index (doc_lens s) doc_idx
               else Inr (length (tokenize doc_text))) = Inr dl"
    using assms(2) by (auto simp: py_index_def Let_def)
  then obtain dl where dl: "(if doc_idx < int (length (doc_lens s)) then py_index (doc_lens s) doc_idx
               else Inr (length (tokenize doc_text))) = Inr dl" by blast
  from score_loop_no_idf [OF assms(1), of dl "tokenize doc_text" doc_text query_terms 0 "[]"]
  show ?thesis unfolding score_def Let_def dl by simp
qed

theorem score_empty_index_witness:
  "idf (fit SPLADESearch_init [] []) = Map.empty \<and> (0::int) \<le> 0
   \<and> (\<exists>ts. score (fit SPLADESearch_init [] []) [(''gene'', 2), (''stem cell'', 2)] 0 ''gene stem cell''
         = Inr (4, ts))"
proof -
  have e: "idf (fit SPLADESearch_init [] []) = Map.empty" by (rule empty_fit)
  have z: "(0::int) \<le> 0" by simp
  have "sum_list (map (phrase_bonus ''gene stem cell'') [(''gene'', 2), (''stem cell'', 2)]) = 4"
    by (simp add: phrase_bonus_def py_split_def is_space_def py_lower_def lower_char_def)
  with score_empty_index [OF e z, of "[(''gene'', 2), (''stem cell'', 2)]" "''gene stem cell''"] e
  show ?thesis by simp
qed

text \<open>
  The guard \<open>denominator > 0\<close> of \<open>score\<close> comes after the division by
  \<open>avg_doc_len\<close>: with the idf values left by an earlier fit, an index refitted on the
  empty corpus divides by zero.
\<close>

lemma score_after_refit_to_empty_raises:
  "score (fit (fit SPLADESearch_init [''alpha beta''] [''1'']) [] []) [(''alpha'', 2)] 0 ''alpha''
     = Inl ZeroDivisionError"
proof -
  have "idf (fit (fit SPLADESearch_init [''alpha beta''] [''1'']) [] []) ''alpha'' = Some (ln (4 / 3))"
    "doc_lens (fit (fit SPLADESearch_init [''alpha beta''] [''1'']) [] []) = []"
    "avg_doc_len (fit (fit SPLADESearch_init [''alpha beta''] [''1'']) [] []) = 0"
    by (simp_all add: fit_def SPLADESearch_init_def tokenize_alpha_beta Let_def)
  then show ?thesis
    by (simp add: score_def tokenize_alpha split_alpha Let_def)
qed

section \<open>Score bounds of dense and hybrid search\<close>

lemma round_half_even_bounds:
  assumes "of_int lo \<le> x" "x \<le> of_int hi"
  shows "lo \<le> round_half_even x \<and> round_half_even x \<le> hi"
proof -
  have f: "lo \<le> \<lfloor>x\<rfloor>" "\<lfloor>x\<rfloor> \<le> hi" using assms by (simp_all add: le_floor_iff floor_le_iff)
  have "\<lfloor>x\<rfloor> + 1 \<le> hi" if "x - of_int \<lfloor>x\<rfloor> \<ge> 1 / 2"
  proof -
    from that have "of_int \<lfloor>x\<rfloor> < x" by linarith
    with assms(2) have "(of_int \<lfloor>x\<rfloor> :: real) < of_int hi" by linarith
    then show ?thesis by simp
  qed
  with f show ?thesis
    unfolding round_half_even_def Let_def by (auto split: if_splits) 
qed

lemma py_round_unit:
  assumes "0 \<le> x" "x \<le> 1"
  shows "0 \<le> py_round x n \<and> py_round x n \<le> 1"
proof -
  have "of_int 0 \<le> x * 10 ^ n" "x * 10 ^ n \<le> of_int (10 ^ n)"
    using assms by (simp_all add: mult_left_le_one_le)
  from round_half_even_bounds [OF this]
  show ?thesis by (simp add: py_round_def divide_le_eq_1)
qed

lemma py_round_nonneg: "0 \<le> x \<Longrightarrow> 0 \<le> py_round x n"
proof -
  assume "0 \<le> x"
  then have "of_int 0 \<le> x * 10 ^ n" by simp
  moreover have "x * 10 ^ n \<le> of_int \<lceil>x * 10 ^ n\<rceil>" by linarith
  ultimately have "0 \<le> round_half_even (x * 10 ^ n)"
    using round_half_even_bounds by blast
  then show ?thesis by (simp add: py_round_def)
qed

lemma normalize_dense_unit: "0 \<le> normalize_dense_score sc \<and> normalize_dense_score sc \<le> 1"
  by (simp add: normalize_dense_score_def)

lemma normalize_sparse_nonneg: "0 \<le> normalize_sparse_score sc"
  by (simp add: normalize_sparse_score_def Let_def py_round_nonneg)

lemma collect_invariant:
  assumes "collect f xs acc = Inr ys" "\<forall>y \<in> set acc. P y"
    and "\<forall>x \<in> set xs. \<forall>y. f x = Inr (Some y) \<longrightarrow> P y"
  shows "\<forall>y \<in> set ys. P y"
  using assms
proof (induction xs arbitrary: acc)
  case Nil
  then show ?case by simp
next
  case (Cons x xs)
  have rest: "\<forall>x \<in> set xs. \<forall>y. f x = Inr (Some y) \<longrightarrow> P y"
    using Cons.prems(3) by simp
  show ?case
  proof (cases "f x")
    case (Inl e)
    with Cons.prems(1) show ?thesis by simp
  next
    case (Inr opt)
    show ?thesis
    proof (cases opt)
      case None
      with Inr Cons.prems have "collect f xs acc = Inr ys" by simp
      from Cons.IH [OF this Cons.prems(2) rest] show ?thesis .
    next
      case (Some y)
      with Inr Cons.prems have c: "collect f xs (acc @ [y]) = Inr ys" by simp
      have "P y" using Cons.prems(3) Inr Some by simp
      with Cons.prems(2) have "\<forall>z \<in> set (acc @ [y]). P z" by simp
      from Cons.IH [OF c this rest] show ?thesis .
    qed
  qed
qed

lemma set_py_slice: "set (py_slice xs i j) \<subseteq> set xs"
  unfolding py_slice_def Let_def by (meson order_trans set_drop_subset set_take_subset)

lemma set_py_take: "set (py_take k xs) \<subseteq> set xs"
  by (simp add: py_take_def set_py_slice)

lemma search_dense_ok:
  assumes "search_dense env st query top_k = Inr results"
  shows "\<forall>r \<in> set results. dense_ok r"
proof -
  have q: "dense_ok (qdrant_entry p)" for p
    by (simp add: dense_ok_def qdrant_entry_def Let_def py_round_unit normalize_dense_unit)
  have fb: "dense_ok r" if "dense_fallback_entry env qe doc = Inr (Some r)" for qe doc r
    using that
    by (auto simp: dense_fallback_entry_def dense_ok_def Let_def py_round_unit normalize_dense_unit
        split: option.splits sum.splits)
  show ?thesis
  proof (cases "documents st = []")
    case True
    with assms show ?thesis by (simp add: search_dense_def)
  next
    case False
    show ?thesis
    proof (cases "get_embedding env query")
      case None
      with assms False show ?thesis by (simp add: search_dense_def)
    next
      case (Some qe)
      show ?thesis
      proof (cases "if use_qdrant env then query_points env qe top_k else None")
        case (Some points)
        with assms False \<open>get_embedding env query = Some qe\<close>
        have "results = map qdrant_entry points" by (simp add: search_dense_def)
        with q show ?thesis by auto
      next
        case None
        with assms False \<open>get_embedding env query = Some qe\<close>
        obtain rs where c: "collect (dense_fallback_entry env qe) (documents st) [] = Inr rs"
          and r: "results = py_take top_k (sort_key (\<lambda>r. - r_score r) rs)"
          by (auto simp: search_dense_def split: sum.splits)
        have "\<forall>r \<in> set rs. dense_ok r"
          by (rule collect_invariant [OF c]) (auto intro: fb)
        with r set_py_take [of top_k "sort_key (\<lambda>r. - r_score r) rs"] show ?thesis by auto
      qed
    qed
  qed
qed


lemma search_sparse_ok:
  assumes "search_sparse env st query top_k = Inr results"
  shows "\<forall>r \<in> set results. \<exists>v. r_sparse_score r = Some v \<and> r_score r = v \<and> 0 \<le> v"
proof (cases "documents st = [] \<or> \<not> splade_fitted st")
  case True
  with assms show ?thesis by (auto simp: search_sparse_def)
next
  case False
  with assms obtain hits where "results = py_take top_k (map (sparse_entry st) hits)"
    by (auto simp: search_sparse_def Let_def split: sum.splits)
  with set_py_take [of top_k "map (sparse_entry st) hits"] show ?thesis
    by (auto simp: sparse_entry_def Let_def normalize_sparse_nonneg)
qed

lemma set_update_subset: "set (AList.update k v al) \<subseteq> insert (k, v) (set al)"
  by (induction al) auto

lemma set_dict_fold:
  "set (foldl (\<lambda>d (k, v). AList.update k v d) acc ps) \<subseteq> set acc \<union> set ps"
proof (induction ps arbitrary: acc)
  case Nil
  then show ?case by simp
next
  case (Cons p ps)
  obtain k v where p: "p = (k, v)" by (cases p)
  from Cons.IH [of "AList.update k v acc"] set_update_subset [of k v acc]
  show ?case by (auto simp: p)
qed

lemma set_dict_of: "set (dict_of ps) \<subseteq> set ps"
  using set_dict_fold [of "[]" ps] by (simp add: dict_of_def)

lemma nums_Inr: "nums vs = Inr xs \<Longrightarrow> vs = map Some xs"
  by (induction vs arbitrary: xs) (auto simp: num_def split: option.splits sum.splits)

lemma max_list_ge: "x \<in> set xs \<Longrightarrow> x \<le> max_list xs"
  by (induction xs rule: max_list.induct) auto

lemma convex_unit:
  fixes d s w :: real
  assumes "0 \<le> d" "d \<le> 1" "0 \<le> s" "s \<le> 1" "0 \<le> w" "w \<le> 1"
  shows "0 \<le> d * w + s * (1 - w)" "d * w + s * (1 - w) \<le> 1"
proof -
  from assms show "0 \<le> d * w + s * (1 - w)" by simp
  have "d * w \<le> 1 * w" using assms by (intro mult_right_mono) auto
  moreover have "s * (1 - w) \<le> 1 * (1 - w)" using assms by (intro mult_right_mono) auto
  ultimately show "d * w + s * (1 - w) \<le> 1" by simp
qed

lemma hybrid_entry_ok:
  assumes dm: "\<forall>(k, v) \<in> set dm. \<exists>d. v = Some d \<and> 0 \<le> d \<and> d \<le> 1"
    and nm: "\<forall>(k, v) \<in> set nm. 0 \<le> v \<and> v \<le> 1"
    and w: "0 \<le> w" "w \<le> 1"
    and e: "hybrid_entry st dr dm sm nm mm w (1 - w) doc_id = Inr (Some r)"
  shows "hybrid_ok r"
proof -
  from e obtain d_score s_raw where
    d: "num (dict_get dm doc_id (Some 0)) = Inr d_score"
    and sr: "num (dict_get sm doc_id (Some 0)) = Inr s_raw"
    by (auto simp: hybrid_entry_def split: option.splits sum.splits)
  define s_norm where "s_norm = dict_get nm doc_id 0"
  define h where "h = d_score * w + s_norm * (1 - w)"
  define h' where "h' = (if (map_of dm doc_id \<noteq> None \<and> d_score > 0) \<and> (map_of sm doc_id \<noteq> None \<and> s_raw > 0)
                         then min (h + 0.1 * min d_score s_norm) 1 else h)"
  have db: "0 \<le> d_score \<and> d_score \<le> 1"
  proof (cases "map_of dm doc_id")
    case None
    with d show ?thesis by (simp add: dict_get_def num_def)
  next
    case (Some v)
    then have "(doc_id, v) \<in> set dm" by (rule map_of_SomeD)
    with dm obtain x where "v = Some x" "0 \<le> x" "x \<le> 1" by auto
    with d Some show ?thesis by (simp add: dict_get_def num_def)
  qed
  have sb: "0 \<le> s_norm \<and> s_norm \<le> 1"
  proof (cases "map_of nm doc_id")
    case None
    then show ?thesis by (simp add: s_norm_def dict_get_def)
  next
    case (Some v)
    then have "(doc_id, v) \<in> set nm" by (rule map_of_SomeD)
    with nm Some show ?thesis by (auto simp: s_norm_def dict_get_def)
  qed
  have hb: "0 \<le> h" "h \<le> 1"
    unfolding h_def using convex_unit [of d_score s_norm w] db sb w by auto
  have "0 \<le> h' \<and> h' \<le> 1"
    using hb db sb by (auto simp: h'_def)
  then have hr: "0 \<le> py_round h' 4 \<and> py_round h' 4 \<le> 1" by (simp add: py_round_unit)
  have dr: "0 \<le> py_round d_score 4 \<and> py_round d_score 4 \<le> 1" using db by (simp add: py_round_unit)
  from e d sr have "r_dense_score r = Some (py_round d_score 4)" "r_score r = py_round h' 4"
    by (auto simp: hybrid_entry_def Let_def s_norm_def h_def h'_def split: option.splits)
  with hr dr show ?thesis by (simp add: hybrid_ok_def)
qed

lemma search_hybrid_unfold:
  assumes "documents st \<noteq> []"
    and "search_dense env st query (int (length (documents st))) = Inr dense_results"
    and "search_sparse env st query (int (length (documents st))) = Inr sparse_results"
    and "nums (map snd (dict_of (map (\<lambda>r. (r_id r, r_sparse_score r)) sparse_results))) = Inr sparse_values"
  shows "search_hybrid env st query top_k w =
      (case collect
              (hybrid_entry st dense_results
                 (dict_of (map (\<lambda>r. (r_id r, r_dense_score r)) dense_results))
                 (dict_of (map (\<lambda>r. (r_id r, r_sparse_score r)) sparse_results))
                 (map (\<lambda>(doc_id, sc).
                        (doc_id,
                         if (if dict_of (map (\<lambda>r. (r_id r, r_sparse_score r)) sparse_results) \<noteq> []
                             then max_list sparse_values else 1) > 0
                         then sc / (if dict_of (map (\<lambda>r. (r_id r, r_sparse_score r)) sparse_results) \<noteq> []
                                    then max_list sparse_values else 1)
                         else 0))
                    (zip (map fst (dict_of (map (\<lambda>r. (r_id r, r_sparse_score r)) sparse_results)))
                         sparse_values))
                 (dict_of (map (\<lambda>r. (r_id r, r_matched_terms r)) sparse_results))
                 w (1 - w))
              (set_order env
                 (map fst (dict_of (map (\<lambda>r. (r_id r, r_dense_score r)) dense_results))
                  @ map fst (dict_of (map (\<lambda>r. (r_id r, r_sparse_score r)) sparse_results))))
              [] of
         Inl e \<Rightarrow> Inl e
       | Inr combined \<Rightarrow> Inr (py_take top_k (sort_key (\<lambda>r. - r_score r) combined)))"
  unfolding search_hybrid_def Let_def using assms by simp

lemma search_hybrid_ok:
  assumes w: "0 \<le> w" "w \<le> 1"
    and res: "search_hybrid env st query top_k w = Inr results"
  shows "\<forall>r \<in> set results. hybrid_ok r"
proof (cases "documents st = []")
  case True
  with res show ?thesis by (simp add: search_hybrid_def)
next
  case False
  from res False obtain dense_results where
    dres: "search_dense env st query (int (length (documents st))) = Inr dense_results"
    by (auto simp: search_hybrid_def Let_def split: sum.splits)
  from res False dres obtain sparse_results where
    sres: "search_sparse env st query (int (length (documents st))) = Inr sparse_results"
    by (auto simp: search_hybrid_def Let_def split: sum.splits)
  define dm where "dm = dict_of (map (\<lambda>r. (r_id r, r_dense_score r)) dense_results)"
  define sm where "sm = dict_of (map (\<lambda>r. (r_id r, r_sparse_score r)) sparse_results)"
  define mm where "mm = dict_of (map (\<lambda>r. (r_id r, r_matched_terms r)) sparse_results)"
  from res False dres sres obtain sparse_values where
    nv: "nums (map snd sm) = Inr sparse_values"
    by (auto simp: search_hybrid_def Let_def sm_def split: sum.splits)
  define mx where "mx = (if sm \<noteq> [] then max_list sparse_values else 1)"
  define nm where "nm = map (\<lambda>(doc_id, sc). (doc_id, if mx > 0 then sc / mx else 0)) (zip (map fst sm) sparse_values)"
  have eq: "search_hybrid env st query top_k w =
      (case collect (hybrid_entry st dense_results dm sm nm mm w (1 - w))
              (set_order env (map fst dm @ map fst sm)) [] of
         Inl e \<Rightarrow> Inl e
       | Inr combined \<Rightarrow> Inr (py_take top_k (sort_key (\<lambda>r. - r_score r) combined)))"
    unfolding nm_def mx_def mm_def dm_def sm_def
    by (rule search_hybrid_unfold [OF False dres sres nv [unfolded sm_def]])
  from res obtain combined where
    c: "collect (hybrid_entry st dense_results dm sm nm mm w (1 - w))
          (set_order env (map fst dm @ map fst sm)) [] = Inr combined"
    and r: "results = py_take top_k (sort_key (\<lambda>r. - r_score r) combined)"
    unfolding eq by (auto split: sum.splits)
  have dmok: "\<forall>(k, v) \<in> set dm. \<exists>d. v = Some d \<and> 0 \<le> d \<and> d \<le> 1"
  proof -
    have "\<exists>d. v = Some d \<and> 0 \<le> d \<and> d \<le> 1" if "(k, v) \<in> set dm" for k v
    proof -
      from that set_dict_of have "(k, v) \<in> set (map (\<lambda>r. (r_id r, r_dense_score r)) dense_results)"
        unfolding dm_def by blast
      then obtain r where "r \<in> set dense_results" "v = r_dense_score r" by auto
      with search_dense_ok [OF dres] show ?thesis by (auto simp: dense_ok_def)
    qed
    then show ?thesis by auto
  qed
  have svals: "map snd sm = map Some sparse_values" using nv by (rule nums_Inr)
  have nonneg: "0 \<le> sc" if "sc \<in> set sparse_values" for sc
  proof -
    from that svals have "Some sc \<in> snd ` set sm" by (metis image_eqI image_set)
    then obtain k where "(k, Some sc) \<in> set sm" by auto
    with set_dict_of have "(k, Some sc) \<in> set (map (\<lambda>r. (r_id r, r_sparse_score r)) sparse_results)"
      unfolding sm_def by blast
    then obtain r where "r \<in> set sparse_results" "r_sparse_score r = Some sc" by auto
    with search_sparse_ok [OF sres] show ?thesis by auto
  qed
  have nmok: "\<forall>(k, v) \<in> set nm. 0 \<le> v \<and> v \<le> 1"
  proof -
    have "0 \<le> v \<and> v \<le> 1" if "(k, v) \<in> set nm" for k v
    proof -
      from that obtain sc where sc: "sc \<in> set sparse_values" and v: "v = (if mx > 0 then sc / mx else 0)"
        by (auto simp: nm_def dest: set_zip_rightD)
      from sc have "sparse_values \<noteq> []" by auto
      with svals have "sm \<noteq> []" by auto
      then have "mx = max_list sparse_values" by (simp add: mx_def)
      with sc have "sc \<le> mx" by (simp add: max_list_ge)
      with nonneg [OF sc] v show ?thesis by (auto simp: divide_le_eq_1)
    qed
    then show ?thesis by auto
  qed
  have "\<forall>r \<in> set combined. hybrid_ok r"
    by (rule collect_invariant [OF c]) (auto intro: hybrid_entry_ok [OF dmok nmok w])
  with r set_py_take [of top_k "sort_key (\<lambda>r. - r_score r) combined"] show ?thesis by auto
qed

section \<open>The example store, evaluated\<close>

lemmas str_defs = tokenize_def py_lower_def lower_char_def is_word_char_def is_space_def py_split_def py_strip_def py_take_def py_slice_def Let_def

lemma expand_zz: "expand_query (env_suggest ''stem cell'') ''zz'' = [(''zz'', 2), (''stem cell'', 1)]"
  by (simp add: expand_query_def env_suggest_def str_defs)

lemma expand_zz_dense: "expand_query env_dense ''zz'' = [(''zz'', 2), (''stem cell'', 1)]"
  by (simp add: expand_query_def env_dense_def str_defs)

lemma store_stem_fields: "documents store_stem = docs_stem" "splade_fitted store_stem"
  by (simp_all add: store_stem_def rebuild_sparse_index_def docs_stem_def Let_def)

lemma store_stem_index: "idf (splade store_stem) ''zz'' = None" "doc_lens (splade store_stem) = [3, 3]"
  by (simp_all add: store_stem_def rebuild_sparse_index_def docs_stem_def fit_def SPLADESearch_init_def str_defs)

lemma length_docs_stem: "length docs_stem = 2"
  by (simp add: docs_stem_def)

lemma splade_hits_stem:
  "search_loop (splade store_stem) [(''zz'', 2), (''stem cell'', 1)] (enumerate 0 (zip (map d_text docs_stem) (map d_id docs_stem))) []
     = Inr [\<lparr>h_idx = 0, h_doc_id = ''a'', h_score = 2, h_matched_terms = [''stem cell'']\<rparr>,
            \<lparr>h_idx = 1, h_doc_id = ''b'', h_score = 2, h_matched_terms = [''stem cell'']\<rparr>]"
  by (simp add: docs_stem_def score_def store_stem_index py_index_def str_defs)

lemma search_sparse_stem:
  assumes "expand_query env ''zz'' = [(''zz'', 2), (''stem cell'', 1)]"
  shows "search_sparse env store_stem ''zz'' 2 = Inr 
   [\<lparr>r_id = ''a'', r_text = ''Stem cell therapy'', r_dense_score = None, r_sparse_score = Some 6, r_score = 6, r_metadata = [], r_matched_terms = [''stem cell''], r_search_engine = ''splade''\<rparr>,
    \<lparr>r_id = ''b'', r_text = ''stem cell biology'', r_dense_score = None, r_sparse_score = Some 6, r_score = 6, r_metadata = [], r_matched_terms = [''stem cell''], r_search_engine = ''splade''\<rparr>]"
  by (simp add: search_sparse_def store_stem_fields splade_search_def assms splade_hits_stem length_docs_stem)
     (simp add: docs_stem_def sparse_entry_def store_stem_fields normalize_sparse_score_def py_round_def round_half_even_def py_take_def py_slice_def)


lemmas hyb_defs = dict_of_def hybrid_entry_def dict_get_def num_def py_round_def round_half_even_def
  py_take_def py_slice_def Let_def first_seen_def normalize_dense_score_def

lemma search_dense_off: "search_dense (env_suggest c) st q k = Inr []"
  by (simp add: search_dense_def get_embedding_def env_suggest_def)

lemma set_order_suggest: "set_order (env_suggest c) = first_seen"
  by (simp add: env_suggest_def)

lemma hybrid_stem_sparse_only:
  "search_hybrid (env_suggest ''stem cell'') store_stem ''zz'' 2 (7 / 10) = Inr
   [\<lparr>r_id = ''a'', r_text = ''Stem cell therapy'', r_dense_score = Some 0, r_sparse_score = Some 6, r_score = 3 / 10, r_metadata = [], r_matched_terms = [''stem cell''], r_search_engine = ''hybrid''\<rparr>,
    \<lparr>r_id = ''b'', r_text = ''stem cell biology'', r_dense_score = Some 0, r_sparse_score = Some 6, r_score = 3 / 10, r_metadata = [], r_matched_terms = [''stem cell''], r_search_engine = ''hybrid''\<rparr>]"
  by (simp add: search_hybrid_def search_dense_off search_sparse_stem [OF expand_zz] store_stem_fields
        length_docs_stem set_order_suggest hyb_defs)
     (simp add: docs_stem_def store_stem_fields hyb_defs)

lemma search_dense_stem:
  "search_dense env_dense store_stem q k = Inr
    [\<lparr>r_id = ''a'', r_text = ''Stem cell therapy'', r_dense_score = Some (1 / 2), r_sparse_score = None, r_score = 1 / 2, r_metadata = [], r_matched_terms = [], r_search_engine = ''qdrant''\<rparr>,
     \<lparr>r_id = ''c'', r_text = ''old point'', r_dense_score = Some (1 / 4), r_sparse_score = None, r_score = 1 / 4, r_metadata = [], r_matched_terms = [], r_search_engine = ''qdrant''\<rparr>]"
  by (simp add: search_dense_def store_stem_fields docs_stem_def get_embedding_def env_dense_def
      qdrant_entry_def normalize_dense_score_def py_round_def round_half_even_def Let_def)

lemma set_order_dense: "set_order env_dense = first_seen"
  by (simp add: env_dense_def)

lemma hybrid_stem_dense:
  "search_hybrid env_dense store_stem ''zz'' 3 (7 / 10) = Inr
   [\<lparr>r_id = ''a'', r_text = ''Stem cell therapy'', r_dense_score = Some (1 / 2), r_sparse_score = Some 6, r_score = 7 / 10, r_metadata = [], r_matched_terms = [''stem cell''], r_search_engine = ''hybrid''\<rparr>,
    \<lparr>r_id = ''b'', r_text = ''stem cell biology'', r_dense_score = Some 0, r_sparse_score = Some 6, r_score = 3 / 10, r_metadata = [], r_matched_terms = [''stem cell''], r_search_engine = ''hybrid''\<rparr>,
    \<lparr>r_id = ''c'', r_text = ''old point'', r_dense_score = Some (1 / 4), r_sparse_score = Some 0, r_score = 7 / 40, r_metadata = [], r_matched_terms = [], r_search_engine = ''hybrid''\<rparr>]"
  by (simp add: search_hybrid_def search_dense_stem search_sparse_stem [OF expand_zz_dense] store_stem_fields
        length_docs_stem set_order_dense hyb_defs)
     (simp add: docs_stem_def store_stem_fields hyb_defs)

lemma search_dense_off_rev: "search_dense (env_suggest_rev c) st q k = Inr []"
  by (simp add: search_dense_def get_embedding_def env_suggest_rev_def env_suggest_def)

lemma expand_zz_rev: "expand_query (env_suggest_rev ''stem cell'') ''zz'' = [(''zz'', 2), (''stem cell'', 1)]"
  by (simp add: expand_query_def env_suggest_rev_def env_suggest_def str_defs)

lemma set_order_suggest_rev: "set_order (env_suggest_rev c) = (\<lambda>ks. rev (first_seen ks))"
  by (simp add: env_suggest_rev_def)

lemma hybrid_stem_sparse_only_rev:
  "search_hybrid (env_suggest_rev ''stem cell'') store_stem ''zz'' 2 (7 / 10) = Inr
   [\<lparr>r_id = ''b'', r_text = ''stem cell biology'', r_dense_score = Some 0, r_sparse_score = Some 6, r_score = 3 / 10, r_metadata = [], r_matched_terms = [''stem cell''], r_search_engine = ''hybrid''\<rparr>,
    \<lparr>r_id = ''a'', r_text = ''Stem cell therapy'', r_dense_score = Some 0, r_sparse_score = Some 6, r_score = 3 / 10, r_metadata = [], r_matched_terms = [''stem cell''], r_search_engine = ''hybrid''\<rparr>]"
  by (simp add: search_hybrid_def search_dense_off_rev search_sparse_stem [OF expand_zz_rev] store_stem_fields
        length_docs_stem set_order_suggest_rev hyb_defs)
     (simp add: docs_stem_def store_stem_fields hyb_defs)

lemma first_seen_ok: "distinct (first_seen ks) \<and> set (first_seen ks) = set ks"
  by (simp add: first_seen_def)

section \<open>Claims about the hybrid store\<close>

text \<open>
  C1 as stated fails: a mode string that is none of \<open>dense\<close>, \<open>sparse\<close>, \<open>hybrid\<close>
  is not rejected. With the mode \<open>fuzzy\<close> the example store performs a retrieval and
  returns two results.
\<close>

theorem search_unknown_mode_counterexample:
  "search (env_suggest ''stem cell'') store_stem ''zz'' 2 ''fuzzy'' (7 / 10) = Inr
   [\<lparr>r_id = ''a'', r_text = ''Stem cell therapy'', r_dense_score = Some 0, r_sparse_score = Some 6, r_score = 3 / 10, r_metadata = [], r_matched_terms = [''stem cell''], r_search_engine = ''hybrid''\<rparr>,
    \<lparr>r_id = ''b'', r_text = ''stem cell biology'', r_dense_score = Some 0, r_sparse_score = Some 6, r_score = 3 / 10, r_metadata = [], r_matched_terms = [''stem cell''], r_search_engine = ''hybrid''\<rparr>]"
  by (simp add: search_def hybrid_stem_sparse_only)

text \<open>
  C1, amended: every search request whose mode string is neither \<open>dense\<close> nor
  \<open>sparse\<close> is answered as a hybrid search; no request is rejected for its mode.
\<close>

theorem search_unknown_mode_is_hybrid:
  assumes "mode \<noteq> ''dense''" and "mode \<noteq> ''sparse''"
  shows "search env st query top_k mode dense_weight = search_hybrid env st query top_k dense_weight"
  using assms by (simp add: search_def)

theorem search_unknown_mode_is_hybrid_witness:
  "''fuzzy'' \<noteq> ''dense'' \<and> ''fuzzy'' \<noteq> ''sparse''
   \<and> search env_dense store_stem ''zz'' 3 ''fuzzy'' (7 / 10)
       = search_hybrid env_dense store_stem ''zz'' 3 (7 / 10)
   \<and> (\<exists>results. search env_dense store_stem ''zz'' 3 ''fuzzy'' (7 / 10) = Inr results \<and> length results = 3)"
proof -
  have m: "''fuzzy'' \<noteq> ''dense''" "''fuzzy'' \<noteq> ''sparse''" by simp_all
  from search_unknown_mode_is_hybrid [OF m, of env_dense store_stem "''zz''" 3 "7 / 10"]
  show ?thesis by (simp add: hybrid_stem_dense)
qed

text \<open>
  C3: for every query, store and \<open>dense_weight\<close> in \<open>[0, 1]\<close>, every result returned
  by hybrid search has its dense score and its fused score in \<open>[0, 1]\<close>, and every result
  returned in dense mode has its score in \<open>[0, 1]\<close>.
\<close>

theorem hybrid_and_dense_scores_bounded:
  assumes "0 \<le> dense_weight" and "dense_weight \<le> 1"
  shows "(\<forall>results. search env st query top_k ''hybrid'' dense_weight = Inr results \<longrightarrow>
            (\<forall>r \<in> set results. (\<exists>d. r_dense_score r = Some d \<and> 0 \<le> d \<and> d \<le> 1)
                                  \<and> 0 \<le> r_score r \<and> r_score r \<le> 1))
       \<and> (\<forall>results. search env st query top_k ''dense'' dense_weight = Inr results \<longrightarrow>
            (\<forall>r \<in> set results. 0 \<le> r_score r \<and> r_score r \<le> 1))"
proof (intro conjI allI impI)
  fix results
  assume "search env st query top_k ''hybrid'' dense_weight = Inr results"
  then have "search_hybrid env st query top_k dense_weight = Inr results" by (simp add: search_def)
  from search_hybrid_ok [OF assms this]
  show "\<forall>r \<in> set results. (\<exists>d. r_dense_score r = Some d \<and> 0 \<le> d \<and> d \<le> 1)
                                  \<and> 0 \<le> r_score r \<and> r_score r \<le> 1"
    by (simp add: hybrid_ok_def)
next
  fix results
  assume "search env st query top_k ''dense'' dense_weight = Inr results"
  then have "search_dense env st query top_k = Inr results" by (simp add: search_def)
  from search_dense_ok [OF this]
  show "\<forall>r \<in> set results. 0 \<le> r_score r \<and> r_score r \<le> 1"
    by (auto simp: dense_ok_def)
qed

theorem hybrid_and_dense_scores_bounded_witness:
  "(0::real) \<le> 7 / 10 \<and> (7 / 10 :: real) \<le> 1
   \<and> (\<exists>results. search env_dense store_stem ''zz'' 3 ''hybrid'' (7 / 10) = Inr results
         \<and> map r_score results = [7 / 10, 3 / 10, 7 / 40]
         \<and> (\<forall>r \<in> set results. (\<exists>d. r_dense_score r = Some d \<and> 0 \<le> d \<and> d \<le> 1)
                                  \<and> 0 \<le> r_score r \<and> r_score r \<le> 1))
   \<and> (\<exists>results. search env_dense store_stem ''zz'' 3 ''dense'' (7 / 10) = Inr results
         \<and> map r_score results = [1 / 2, 1 / 4]
         \<and> (\<forall>r \<in> set results. 0 \<le> r_score r \<and> r_score r \<le> 1))"
proof -
  have w: "(0::real) \<le> 7 / 10" "(7 / 10 :: real) \<le> 1" by simp_all
  note b = hybrid_and_dense_scores_bounded [OF w, of env_dense store_stem "''zz''" 3]
  have h: "\<exists>results. search env_dense store_stem ''zz'' 3 ''hybrid'' (7 / 10) = Inr results
         \<and> map r_score results = [7 / 10, 3 / 10, 7 / 40]"
    by (simp add: search_def hybrid_stem_dense)
  have d: "\<exists>results. search env_dense store_stem ''zz'' 3 ''dense'' (7 / 10) = Inr results
         \<and> map r_score results = [1 / 2, 1 / 4]"
    by (simp add: search_def search_dense_stem)
  from h obtain hs where hs: "search env_dense store_stem ''zz'' 3 ''hybrid'' (7 / 10) = Inr hs"
    "map r_score hs = [7 / 10, 3 / 10, 7 / 40]" by auto
  from d obtain ds where ds: "search env_dense store_stem ''zz'' 3 ''dense'' (7 / 10) = Inr ds"
    "map r_score ds = [1 / 2, 1 / 4]" by auto
  note hb = b [THEN conjunct1, rule_format, OF hs(1)]
  note db = b [THEN conjunct2, rule_format, OF ds(1)]
  have "\<exists>results. search env_dense store_stem ''zz'' 3 ''hybrid'' (7 / 10) = Inr results
         \<and> map r_score results = [7 / 10, 3 / 10, 7 / 40]
         \<and> (\<forall>r \<in> set results. (\<exists>d. r_dense_score r = Some d \<and> 0 \<le> d \<and> d \<le> 1)
                                  \<and> 0 \<le> r_score r \<and> r_score r \<le> 1)"
    by (rule exI [of _ hs]) (use hs hb in simp)
  moreover have "\<exists>results. search env_dense store_stem ''zz'' 3 ''dense'' (7 / 10) = Inr results
         \<and> map r_score results = [1 / 2, 1 / 4]
         \<and> (\<forall>r \<in> set results. 0 \<le> r_score r \<and> r_score r \<le> 1)"
    by (rule exI [of _ ds]) (use ds db in simp)
  ultimately show ?thesis using w by simp
qed

subsection \<open>Without embeddings\<close>

lemma py_round_zero [simp]: "py_round 0 n = 0"
  by (simp add: py_round_def round_half_even_def)

lemma update_map_Some:
  "AList.update k (Some v) (map (\<lambda>(k, v). (k, Some v)) al) = map (\<lambda>(k, v). (k, Some v)) (AList.update k v al)"
  by (induction al) auto

lemma dict_fold_map_Some:
  "foldl (\<lambda>d (k, v). AList.update k v d) (map (\<lambda>(k, v). (k, Some v)) acc) (map (\<lambda>(k, v). (k, Some v)) ps)
     = map (\<lambda>(k, v). (k, Some v)) (foldl (\<lambda>d (k, v). AList.update k v d) acc ps)"
proof (induction ps arbitrary: acc)
  case Nil
  then show ?case by simp
next
  case (Cons p ps)
  obtain k v where p: "p = (k, v)" by (cases p)
  from Cons.IH [of "AList.update k v acc"] show ?case
    by (simp add: p update_map_Some)
qed

lemma dict_of_map_Some:
  "dict_of (map (\<lambda>(k, v). (k, Some v)) ps) = map (\<lambda>(k, v). (k, Some v)) (dict_of ps)"
  using dict_fold_map_Some [of "[]" ps] by (simp add: dict_of_def)

lemma nums_map_Some: "nums (map Some xs) = Inr xs"
  by (induction xs) (auto simp: num_def)

lemma collect_map_filter:
  assumes "\<forall>x \<in> set xs. f x = Inr (g x)"
  shows "collect f xs acc = Inr (acc @ List.map_filter g xs)"
  using assms
proof (induction xs arbitrary: acc)
  case Nil
  then show ?case by (simp add: List.map_filter_simps)
next
  case (Cons x xs)
  then show ?case by (cases "g x") (auto simp: List.map_filter_simps)
qed

lemma map_of_map_Some: "map_of (map (\<lambda>(k, v). (k, Some v)) al) k = map_option Some (map_of al k)"
  by (induction al) auto

lemma map_of_map_val: "map_of (map (\<lambda>(k, v). (k, f v)) al) k = map_option f (map_of al k)"
  by (induction al) auto

lemma search_dense_no_embedding:
  assumes "\<forall>t. embed env t = None"
  shows "search_dense env st query top_k = Inr []"
  using assms by (simp add: search_dense_def get_embedding_def)

lemma search_hybrid_no_embedding:
  assumes "\<forall>t. embed env t = None"
  shows "search_hybrid env st query top_k w = sparse_only_fused env st query top_k w"
proof (cases "search_sparse env st query (int (length (documents st)))")
  case (Inl e)
  then show ?thesis
    using search_dense_no_embedding [OF assms]
    by (auto simp: search_hybrid_def sparse_only_fused_def search_sparse_def Let_def)
next
  case (Inr sparse_results)
  define sc where "sc = dict_of (map (\<lambda>r. (r_id r, r_score r)) sparse_results)"
  define mm where "mm = dict_of (map (\<lambda>r. (r_id r, r_matched_terms r)) sparse_results)"
  define sm where "sm = dict_of (map (\<lambda>r. (r_id r, r_sparse_score r)) sparse_results)"
  define mx where "mx = (if sm \<noteq> [] then max_list (map snd sc) else 1)"
  define nm where "nm = map (\<lambda>(doc_id, s). (doc_id, if mx > 0 then s / mx else 0)) (zip (map fst sm) (map snd sc))"
  have pairs: "map (\<lambda>r. (r_id r, r_sparse_score r)) sparse_results
      = map (\<lambda>(k, v). (k, Some v)) (map (\<lambda>r. (r_id r, r_score r)) sparse_results)"
    using search_sparse_ok [OF Inr] by auto
  have sm: "sm = map (\<lambda>(k, v). (k, Some v)) sc"
    unfolding sm_def sc_def pairs by (rule dict_of_map_Some)
  have vals: "map snd sm = map Some (map snd sc)" by (simp add: sm case_prod_unfold)
  have keys: "map fst sm = map fst sc" by (simp add: sm case_prod_unfold)
  have nm: "nm = map (\<lambda>(doc_id, s). (doc_id, if mx > 0 then s / mx else 0)) sc"
    by (simp add: nm_def keys zip_map_fst_snd)
  show ?thesis
  proof (cases "documents st = []")
    case True
    with Inr have "sparse_results = []" by (simp add: search_sparse_def)
    with True Inr show ?thesis
      by (simp add: search_hybrid_def sparse_only_fused_def dict_of_def Let_def
          List.map_filter_def py_take_def py_slice_def)
  next
    case False
    define fused where "fused = (\<lambda>doc_id.
                  case find (\<lambda>d. d_id d = doc_id) (documents st) of
                    None \<Rightarrow> None
                  | Some d \<Rightarrow>
                      Some \<lparr>r_id = doc_id, r_text = d_text d,
                                r_dense_score = Some 0,
                                r_sparse_score = Some (py_round (dict_get sc doc_id 0) 2),
                                r_score = py_round (0 * w
                                                    + (if max_list (map snd sc) > 0 then dict_get sc doc_id 0 / max_list (map snd sc) else 0) * (1 - w)) 4,
                                r_metadata = d_metadata d,
                                r_matched_terms = dict_get mm doc_id [],
                                r_search_engine = ''hybrid''\<rparr>)"
    have entry: "hybrid_entry st [] [] sm nm mm w (1 - w) doc_id = Inr (fused doc_id)" for doc_id
    proof (cases "map_of sc doc_id")
      case None
      then show ?thesis
        by (simp add: hybrid_entry_def fused_def dict_get_def num_def sm nm map_of_map_Some
            map_of_map_val Let_def split: option.splits)
    next
      case (Some v)
      then have "sc \<noteq> []" by auto
      then have "mx = max_list (map snd sc)" by (simp add: mx_def sm)
      with Some show ?thesis
        by (simp add: hybrid_entry_def fused_def dict_get_def num_def sm nm map_of_map_Some
            map_of_map_val Let_def split: option.splits)
    qed
    have nv: "nums (map snd sm) = Inr (map snd sc)" unfolding vals by (rule nums_map_Some)
    have d0: "dict_of (map (\<lambda>r. (r_id r, r_dense_score r)) ([] :: result list)) = []"
      by (simp add: dict_of_def)
    have "search_hybrid env st query top_k w =
      (case collect (hybrid_entry st [] [] sm nm mm w (1 - w)) (set_order env (map fst sm)) [] of
         Inl e \<Rightarrow> Inl e
       | Inr combined \<Rightarrow> Inr (py_take top_k (sort_key (\<lambda>r. - r_score r) combined)))"
      using search_hybrid_unfold [OF False search_dense_no_embedding [OF assms] Inr nv [unfolded sm_def],
          of top_k w]
      unfolding d0 nm_def mx_def mm_def sm_def by simp
    also have "\<dots> = Inr (py_take top_k (sort_key (\<lambda>r. - r_score r) (List.map_filter fused (set_order env (map fst sc)))))"
      by (simp add: collect_map_filter [where g = fused] entry keys)
    also have "\<dots> = sparse_only_fused env st query top_k w"
      unfolding sparse_only_fused_def Let_def fused_def mm_def sc_def using Inr by simp
    finally show ?thesis .
  qed
qed

lemma set_map_filter: "set (List.map_filter f xs) = {y. \<exists>x \<in> set xs. f x = Some y}"
  by (induction xs) (auto simp: List.map_filter_simps split: option.splits)

lemma sparse_only_fused_dense_zero:
  assumes "sparse_only_fused env st query top_k w = Inr results"
  shows "\<forall>r \<in> set results. r_dense_score r = Some 0"
proof (cases "search_sparse env st query (int (length (documents st)))")
  case (Inl e)
  with assms show ?thesis by (simp add: sparse_only_fused_def)
next
  case (Inr sparse_results)
  define sc where "sc = dict_of (map (\<lambda>r. (r_id r, r_score r)) sparse_results)"
  define mm where "mm = dict_of (map (\<lambda>r. (r_id r, r_matched_terms r)) sparse_results)"
  define fused where "fused = (\<lambda>doc_id.
      case find (\<lambda>d. d_id d = doc_id) (documents st) of
        None \<Rightarrow> None
      | Some d \<Rightarrow>
          Some \<lparr>r_id = doc_id, r_text = d_text d, r_dense_score = Some (0::real),
                 r_sparse_score = Some (py_round (dict_get sc doc_id 0) 2),
                 r_score = py_round (0 * w + (if max_list (map snd sc) > 0
                                             then dict_get sc doc_id 0 / max_list (map snd sc)
                                             else 0) * (1 - w)) 4,
                 r_metadata = d_metadata d, r_matched_terms = dict_get mm doc_id [],
                 r_search_engine = ''hybrid''\<rparr>)"
  have "sparse_only_fused env st query top_k w
      = Inr (py_take top_k (sort_key (\<lambda>r. - r_score r)
               (List.map_filter fused (set_order env (map fst sc)))))"
    unfolding sparse_only_fused_def Let_def fused_def mm_def sc_def using Inr by simp
  with assms have r: "results = py_take top_k (sort_key (\<lambda>r. - r_score r)
               (List.map_filter fused (set_order env (map fst sc))))"
    by simp
  have f: "r_dense_score y = Some 0" if "fused doc_id = Some y" for doc_id y
    using that by (auto simp: fused_def split: option.splits)
  from r set_py_take [of top_k "sort_key (\<lambda>r. - r_score r)
               (List.map_filter fused (set_order env (map fst sc)))"]
  have "set results \<subseteq> set (List.map_filter fused (set_order env (map fst sc)))" by simp
  with f show ?thesis by (auto simp: set_map_filter)
qed

text \<open>
  C8: if the embedding collaborator returns null for every text, search in dense mode
  returns the empty list without raising, and search in hybrid mode returns exactly the
  fusion of the sparse results alone, in which the dense component of every result is 0
  and no synergy boost is applied.
\<close>

theorem search_without_embeddings:
  assumes "\<forall>t. embed env t = None"
  shows "search env st query top_k ''dense'' dense_weight = Inr []
       \<and> search env st query top_k ''hybrid'' dense_weight
           = sparse_only_fused env st query top_k dense_weight
       \<and> (\<forall>results. search env st query top_k ''hybrid'' dense_weight = Inr results \<longrightarrow>
            (\<forall>r \<in> set results. r_dense_score r = Some 0))"
proof -
  have h: "search env st query top_k ''hybrid'' dense_weight
           = sparse_only_fused env st query top_k dense_weight"
    by (simp add: search_def search_hybrid_no_embedding [OF assms])
  have d: "search env st query top_k ''dense'' dense_weight = Inr []"
    by (simp add: search_def search_dense_no_embedding [OF assms])
  from h d show ?thesis by (auto dest: sparse_only_fused_dense_zero)
qed

theorem search_without_embeddings_witness:
  "(\<forall>t. embed (env_suggest ''stem cell'') t = None)
   \<and> search (env_suggest ''stem cell'') store_stem ''zz'' 2 ''dense'' (7 / 10) = Inr []
   \<and> sparse_only_fused (env_suggest ''stem cell'') store_stem ''zz'' 2 (7 / 10) = Inr
   [\<lparr>r_id = ''a'', r_text = ''Stem cell therapy'', r_dense_score = Some 0, r_sparse_score = Some 6, r_score = 3 / 10, r_metadata = [], r_matched_terms = [''stem cell''], r_search_engine = ''hybrid''\<rparr>,
    \<lparr>r_id = ''b'', r_text = ''stem cell biology'', r_dense_score = Some 0, r_sparse_score = Some 6, r_score = 3 / 10, r_metadata = [], r_matched_terms = [''stem cell''], r_search_engine = ''hybrid''\<rparr>]"
proof -
  have e: "\<forall>t. embed (env_suggest ''stem cell'') t = None" by (simp add: env_suggest_def)
  have m: "search (env_suggest ''stem cell'') store_stem ''zz'' 2 ''hybrid'' (7 / 10)
      = search_hybrid (env_suggest ''stem cell'') store_stem ''zz'' 2 (7 / 10)"
    by (simp add: search_def)
  from search_without_embeddings [OF e, of store_stem "''zz''" 2 "7 / 10"] e
  show ?thesis by (simp add: m hybrid_stem_sparse_only)
qed

subsection \<open>Ties\<close>

text \<open>The sort of \<open>search_hybrid\<close> itself is stable: results of equal score keep their order.\<close>

lemma hybrid_sort_stable:
  "filter (\<lambda>r. r_score r = k) (sort_key (\<lambda>r. - r_score r) combined)
     = filter (\<lambda>r. r_score r = k) combined"
  using sort_key_stable [of "\<lambda>r. - r_score r" "- k" combined] by simp

text \<open>
  C7 (the code departs from the claim): the ids that \<open>search_hybrid\<close> combines come
  from iterating over a set, whose order is that of the hash values of the process and not
  the order of insertion. The two documents of the example store tie at the fused score
  0.3; they come out as \<open>a, b\<close> when the set iterates in insertion order and as
  \<open>b, a\<close> when it iterates in the opposite order, both of which are iterations of the
  same set.
\<close>

theorem hybrid_tie_order_follows_set_iteration:
  "set_order_ok (env_suggest ''stem cell'') \<and> set_order_ok (env_suggest_rev ''stem cell'')
   \<and> search_hybrid (env_suggest ''stem cell'') store_stem ''zz'' 2 (7 / 10) = Inr
   [\<lparr>r_id = ''a'', r_text = ''Stem cell therapy'', r_dense_score = Some 0, r_sparse_score = Some 6, r_score = 3 / 10, r_metadata = [], r_matched_terms = [''stem cell''], r_search_engine = ''hybrid''\<rparr>,
    \<lparr>r_id = ''b'', r_text = ''stem cell biology'', r_dense_score = Some 0, r_sparse_score = Some 6, r_score = 3 / 10, r_metadata = [], r_matched_terms = [''stem cell''], r_search_engine = ''hybrid''\<rparr>]
   \<and> search_hybrid (env_suggest_rev ''stem cell'') store_stem ''zz'' 2 (7 / 10) = Inr
   [\<lparr>r_id = ''b'', r_text = ''stem cell biology'', r_dense_score = Some 0, r_sparse_score = Some 6, r_score = 3 / 10, r_metadata = [], r_matched_terms = [''stem cell''], r_search_engine = ''hybrid''\<rparr>,
    \<lparr>r_id = ''a'', r_text = ''Stem cell therapy'', r_dense_score = Some 0, r_sparse_score = Some 6, r_score = 3 / 10, r_metadata = [], r_matched_terms = [''stem cell''], r_search_engine = ''hybrid''\<rparr>]"
proof -
  have "set_order_ok (env_suggest ''stem cell'')"
    by (simp add: set_order_ok_def set_order_suggest first_seen_ok)
  moreover have "set_order_ok (env_suggest_rev ''stem cell'')"
    by (simp add: set_order_ok_def set_order_suggest_rev first_seen_ok)
  ultimately show ?thesis
    by (simp add: hybrid_stem_sparse_only hybrid_stem_sparse_only_rev)
qed

section \<open>The chunker on plain words\<close>

lemma re_sub_no_match:
  assumes "\<And>t. set t \<subseteq> set s \<Longrightarrow> m t = None"
  shows "re_sub m repl 0 s = s"
  using assms
proof (induction s)
  case Nil
  then show ?case by simp
next
  case (Cons c cs)
  have "m (c # cs) = None" by (rule Cons.prems) simp
  moreover have "m t = None" if "set t \<subseteq> set cs" for t
    using that by (intro Cons.prems) auto
  then have "re_sub m repl 0 cs = cs" by (rule Cons.IH)
  ultimately show ?case by simp
qed

lemma match_reference_needs_bracket: "CHR ''['' \<notin> set t \<Longrightarrow> match_length match_reference t = None"
  by (cases t) (auto simp: match_length_def match_reference_def)

lemma match_figure_needs_paren: "CHR ''('' \<notin> set t \<Longrightarrow> match_length match_figure t = None"
  by (cases t) (auto simp: match_length_def match_figure_def)

lemma match_url_needs_colon:
  assumes "CHR '':'' \<notin> set t"
  shows "match_length match_url t = None"
proof -
  define r1 where "r1 = (case drop 4 t of [] \<Rightarrow> drop 4 t | c # u \<Rightarrow> if c = CHR ''s'' then u else drop 4 t)"
  have "set r1 \<subseteq> set (drop 4 t)"
    by (auto simp: r1_def split: list.splits)
  then have sub: "set r1 \<subseteq> set t" using set_drop_subset [of 4 t] by blast
  have "take 3 r1 \<noteq> ''://''"
  proof
    assume "take 3 r1 = ''://''"
    then have "CHR '':'' \<in> set (take 3 r1)" by simp
    then have "CHR '':'' \<in> set r1" by (rule in_set_takeD)
    with sub assms show False by auto
  qed
  then show ?thesis
    unfolding match_length_def match_url_def Let_def r1_def by simp
qed

lemma is_space_blank [simp]: "is_space CHR '' ''"
  by (simp add: is_space_def)

lemma squeeze_word:
  assumes "\<forall>c \<in> set w. \<not> is_space c" "w \<noteq> []"
  shows "squeeze_spaces prev (w @ rest) = w @ squeeze_spaces False rest"
  using assms by (induction w arbitrary: prev) (auto, metis append_Nil squeeze_spaces.simps)


lemma squeeze_join:
  assumes "\<forall>w \<in> set ws. w \<noteq> [] \<and> (\<forall>c \<in> set w. \<not> is_space c)"
  shows "squeeze_spaces prev (join ws) = join ws"
  using assms
proof (induction ws arbitrary: prev rule: join.induct)
  case 1
  then show ?case by simp
next
  case (2 w)
  then show ?case using squeeze_word [of w prev "[]"] by simp
next
  case (3 w v ws)
  have "squeeze_spaces prev (w @ CHR '' '' # join (v # ws)) = w @ squeeze_spaces False (CHR '' '' # join (v # ws))"
    using 3(2) by (intro squeeze_word) auto
  also have "\<dots> = w @ CHR '' '' # squeeze_spaces True (join (v # ws))" by simp
  also have "squeeze_spaces True (join (v # ws)) = join (v # ws)"
    using 3(2) by (intro 3(1)) auto
  finally show ?case by simp
qed

lemma split_acc_word:
  assumes "\<forall>c \<in> set w. \<not> is_space c"
  shows "split_acc a (w @ rest) = split_acc (a @ w) rest"
  using assms by (induction w arbitrary: a) auto

lemma split_acc_join:
  assumes "\<forall>w \<in> set (v # ws). w \<noteq> [] \<and> (\<forall>c \<in> set w. \<not> is_space c)"
  shows "split_acc a (join (v # ws)) = (a @ v) # ws"
  using assms
proof (induction ws arbitrary: a v)
  case Nil
  then show ?case using split_acc_word [of v a "[]"] by simp
next
  case (Cons u ws)
  have "split_acc a (v @ CHR '' '' # join (u # ws)) = split_acc (a @ v) (CHR '' '' # join (u # ws))"
    using Cons.prems by (intro split_acc_word) auto
  also have "\<dots> = (a @ v) # split_acc [] (join (u # ws))"
    using Cons.prems by simp
  also have "split_acc [] (join (u # ws)) = ([] @ u) # ws"
    using Cons.prems by (intro Cons.IH) auto
  finally show ?case by simp
qed

lemma py_split_join:
  assumes "\<forall>w \<in> set ws. w \<noteq> [] \<and> (\<forall>c \<in> set w. \<not> is_space c)"
  shows "py_split (join ws) = ws"
proof (cases ws)
  case Nil
  then show ?thesis by (simp add: py_split_def)
next
  case (Cons v vs)
  with assms split_acc_join [of v vs "[]"] show ?thesis by (simp add: py_split_def)
qed

lemma set_join: "set (join ws) \<subseteq> insert CHR '' '' (\<Union>w \<in> set ws. set w)"
  by (induction ws rule: join.induct) auto

lemma join_ends:
  assumes "ws \<noteq> []" "\<forall>w \<in> set ws. w \<noteq> []"
  shows "join ws \<noteq> [] \<and> hd (join ws) = hd (hd ws) \<and> last (join ws) = last (last ws)"
  using assms by (induction ws rule: join.induct) auto

lemma clean_text_join:
  assumes "\<forall>w \<in> set ws. plain_word w"
  shows "clean_text (join ws) = join ws"
proof (cases "ws = []")
  case True
  then show ?thesis by (simp add: clean_text_def)
next
  case False
  have ns: "\<forall>w \<in> set ws. w \<noteq> [] \<and> (\<forall>c \<in> set w. \<not> is_space c)"
    using assms by (auto simp: plain_word_def)
  have chars: "CHR ''['' \<notin> set (join ws)" "CHR ''('' \<notin> set (join ws)" "CHR '':'' \<notin> set (join ws)"
    using set_join [of ws] assms by (auto simp: plain_word_def)
  have s1: "re_sub (match_length match_reference) [] 0 (join ws) = join ws"
    using chars(1) by (intro re_sub_no_match match_reference_needs_bracket) auto
  have s2: "re_sub (match_length match_figure) [] 0 (join ws) = join ws"
    using chars(2) by (intro re_sub_no_match match_figure_needs_paren) auto
  have s3: "squeeze_spaces False (join ws) = join ws" using ns by (rule squeeze_join)
  have s4: "re_sub (match_length match_url) [] 0 (join ws) = join ws"
    using chars(3) by (intro re_sub_no_match match_url_needs_colon) auto
  from join_ends [OF False] ns have e: "join ws \<noteq> []" "hd (join ws) = hd (hd ws)" "last (join ws) = last (last ws)"
    by auto
  from False ns have "\<not> is_space (hd (hd ws))" "\<not> is_space (last (last ws))"
    by (metis hd_in_set last_in_set)+
  with e have s5: "py_strip (join ws) = join ws" by (intro strip_fixed) simp
  from e(1) show ?thesis by (simp add: clean_text_def Let_def s1 s2 s3 s4 s5)
qed

lemma estimate_tokens_plain:
  assumes "\<forall>w \<in> set xs. plain_word w"
  shows "estimate_tokens (join xs) = py_int (real (length xs) * 1.3)"
proof -
  have "\<forall>w \<in> set xs. w \<noteq> [] \<and> (\<forall>c \<in> set w. \<not> is_space c)"
    using assms by (auto simp: plain_word_def)
  then have "py_split (join xs) = xs" by (rule py_split_join)
  then show ?thesis by (simp add: estimate_tokens_def)
qed

lemma estimate_tokens_window:
  assumes "\<forall>w \<in> set ws. plain_word w"
  shows "estimate_tokens (join (take n (drop k ws))) = py_int (real (length (take n (drop k ws))) * 1.3)"
    and "estimate_tokens (join (take n ws)) = py_int (real (length (take n ws)) * 1.3)"
    and "estimate_tokens (join (drop k ws)) = py_int (real (length (drop k ws)) * 1.3)"
proof -
  have a: "\<forall>w \<in> set (take n (drop k ws)). plain_word w"
    using assms by (auto dest!: in_set_takeD in_set_dropD)
  have b: "\<forall>w \<in> set (take n ws). plain_word w"
    using assms by (auto dest!: in_set_takeD)
  have c: "\<forall>w \<in> set (drop k ws). plain_word w"
    using assms by (auto dest!: in_set_dropD)
  show "estimate_tokens (join (take n (drop k ws))) = py_int (real (length (take n (drop k ws))) * 1.3)"
    by (rule estimate_tokens_plain [OF a])
  show "estimate_tokens (join (take n ws)) = py_int (real (length (take n ws)) * 1.3)"
    by (rule estimate_tokens_plain [OF b])
  show "estimate_tokens (join (drop k ws)) = py_int (real (length (drop k ws)) * 1.3)"
    by (rule estimate_tokens_plain [OF c])
qed

lemma chunk_loop_500:
  assumes len: "length ws = 500" and plain: "\<forall>w \<in> set ws. plain_word w"
  shows "chunk_by_tokens_loop ws 76 15 0 [] =
     Some (map (\<lambda>i. \<lparr>tc_text = join (take 76 (drop (61 * i) ws)), tc_index = i, tc_section = None,
                       tc_token_count = Some (if i < 7 then 98 else 94), tc_metadata = None\<rparr>)
               [0, 1, 2, 3, 4, 5, 6, 7])"
  by (simp add: chunk_by_tokens_loop.simps len Let_def py_slice_def estimate_tokens_window [OF plain] py_int_def)

lemma join_nonempty:
  assumes "ws \<noteq> []" "\<forall>w \<in> set ws. plain_word w"
  shows "join ws \<noteq> []"
  using join_ends [of ws] assms by (auto simp: plain_word_def)

lemma chunk_by_tokens_500:
  assumes "length ws = 500" and "\<forall>w \<in> set ws. plain_word w"
  shows "chunk_by_tokens self (join ws) (Some 100) (Some 20) =
     Some (map (\<lambda>i. \<lparr>tc_text = join (take 76 (drop (61 * i) ws)), tc_index = i, tc_section = None,
                       tc_token_count = Some (if i < 7 then 98 else 94), tc_metadata = None\<rparr>)
               [0, 1, 2, 3, 4, 5, 6, 7])"
proof -
  have ne: "ws \<noteq> []" using assms(1) by auto
  have ns: "\<forall>w \<in> set ws. w \<noteq> [] \<and> (\<forall>c \<in> set w. \<not> is_space c)"
    using assms(2) by (auto simp: plain_word_def)
  have c: "clean_text (join ws) = join ws" using assms(2) by (rule clean_text_join)
  have j: "join ws \<noteq> []" using ne assms(2) by (rule join_nonempty)
  have s: "py_split (join ws) = ws" using ns by (rule py_split_join)
  have n: "py_int (1000 / 13) = 76" "py_int (200 / 13) = 15" by (simp_all add: py_int_def)
  have "chunk_by_tokens self (join ws) (Some 100) (Some 20) = chunk_by_tokens_loop ws 76 15 0 []"
    using ne j by (simp add: chunk_by_tokens_def py_or_def Let_def c s n)
  with chunk_loop_500 [OF assms] show ?thesis by simp
qed

lemma plain_word_word: "plain_word ''word''"
  by (simp add: plain_word_def is_space_def)

text \<open>
  C9 as stated fails: \<open>chunk_by_tokens\<close> counts \<open>chunk_size\<close> and \<open>overlap\<close> in
  tokens of 1.3 per word, so with \<open>chunk_size = 100\<close> a chunk holds
  \<open>int(100 / 1.3) = 76\<close> words, not 100. On the text of 500 times \<open>word\<close> it returns
  seven chunks of 76 words and one of 73.
\<close>

theorem chunk_by_tokens_counterexample:
  "chunk_by_tokens (TextChunker_init None None) (join (replicate 500 ''word'')) (Some 100) (Some 20)
     = Some [word_chunk 76 0, word_chunk 76 1, word_chunk 76 2, word_chunk 76 3,
             word_chunk 76 4, word_chunk 76 5, word_chunk 76 6, word_chunk 73 7]
   \<and> length (py_split (tc_text (word_chunk 76 0))) = 76"
proof -
  have p: "\<forall>w \<in> set (replicate 500 ''word''). plain_word w"
    by (simp add: plain_word_word)
  have "py_split (join (replicate 76 ''word'')) = replicate 76 ''word''"
    by (rule py_split_join) (simp add: is_space_def)
  then have "length (py_split (tc_text (word_chunk 76 0))) = 76"
    by (simp add: word_chunk_def)
  moreover have "chunk_by_tokens (TextChunker_init None None) (join (replicate 500 ''word'')) (Some 100) (Some 20)
     = Some [word_chunk 76 0, word_chunk 76 1, word_chunk 76 2, word_chunk 76 3,
             word_chunk 76 4, word_chunk 76 5, word_chunk 76 6, word_chunk 73 7]"
    using chunk_by_tokens_500 [OF _ p, of "TextChunker_init None None"]
    by (simp add: word_chunk_def py_int_def)
  ultimately show ?thesis by simp
qed

text \<open>
  C9, amended: \<open>chunk_by_tokens\<close> is a function of its arguments, so it returns the same
  sequence on every call. Applied to 500 words joined by single spaces (words without
  whitespace, bracket, parenthesis or colon, which \<open>clean_text\<close> leaves alone; in
  particular 500 identical such words) with \<open>chunk_size = 100\<close> and \<open>overlap = 20\<close> it
  returns 8 chunks; chunk \<open>i\<close> holds the words from position \<open>61 * i\<close> on, so every chunk
  but the last holds exactly 76 words, of which the last 15 are the first 15 of the next
  chunk, and the last chunk holds 73 words.
\<close>

theorem chunk_by_tokens_windows:
  assumes "length ws = 500" and "\<forall>w \<in> set ws. plain_word w"
  shows "chunk_by_tokens self (join ws) (Some 100) (Some 20) =
     Some (map (\<lambda>i. \<lparr>tc_text = join (take 76 (drop (61 * i) ws)), tc_index = i, tc_section = None,
                       tc_token_count = Some (if i < 7 then 98 else 94), tc_metadata = None\<rparr>)
               [0, 1, 2, 3, 4, 5, 6, 7])
   \<and> (\<forall>i < 7. length (take 76 (drop (61 * i) ws)) = 76
             \<and> drop 61 (take 76 (drop (61 * i) ws)) = take 15 (take 76 (drop (61 * (i + 1)) ws))
             \<and> length (drop 61 (take 76 (drop (61 * i) ws))) = 15)
   \<and> length (take 76 (drop (61 * 7) ws)) = 73"
proof -
  have "drop 61 (take 76 (drop (61 * i) ws)) = take 15 (take 76 (drop (61 * (i + 1)) ws))" for i
    by (simp add: drop_take add.commute)
  moreover have "length (take 76 (drop (61 * i) ws)) = 76" if "i < 7" for i
    using that assms(1) by simp
  ultimately show ?thesis using assms(1) chunk_by_tokens_500 [OF assms] by simp
qed

theorem chunk_by_tokens_windows_witness:
  "length (replicate 500 ''word'') = 500 \<and> plain_word ''word''
   \<and> chunk_by_tokens (TextChunker_init None None) (join (replicate 500 ''word'')) (Some 100) (Some 20)
       = Some [word_chunk 76 0, word_chunk 76 1, word_chunk 76 2, word_chunk 76 3,
               word_chunk 76 4, word_chunk 76 5, word_chunk 76 6, word_chunk 73 7]
   \<and> (0::nat) < 7
   \<and> length (take 76 (drop (61 * 0) (replicate 500 ''word''))) = 76
   \<and> length (drop 61 (take 76 (drop (61 * 0) (replicate 500 ''word'')))) = 15"
proof -
  have l: "length (replicate 500 ''word'') = 500" by simp
  have p: "\<forall>w \<in> set (replicate 500 ''word''). plain_word w"
    by (simp add: plain_word_word)
  from chunk_by_tokens_windows [OF l p, of "TextChunker_init None None"]
  show ?thesis by (simp add: word_chunk_def py_int_def plain_word_word)
qed

end
